theory Spec2Isabelle
  imports Complex_Main
begin

section \<open>The noise schedule of \<^verbatim>\<open>Models/1D_diffusion.py\<close>\<close>

text \<open>
  The program computes on torch tensors of floating-point numbers. The embedding
  takes the numbers as \<^typ>\<open>real\<close>: rounding, signed zeros and infinities are not
  represented, and every statement below is about the exact arithmetic the
  floating-point code approximates. NaN is represented where exact arithmetic
  itself produces it, in the root of a negative number inside the sampling loop
  (section Tensors); the schedule below never takes such a root.

  \<^verbatim>\<open>torch.atan2\<close> is library code. It is written out by quadrant through
  \<^const>\<open>arctan\<close>, with the value \<open>0\<close> at the origin, as the IEEE function gives for
  two positive zeros.
\<close>

definition atan2 :: "real \<Rightarrow> real \<Rightarrow> real" where
  "atan2 y x =
     (if 0 < x then arctan (y / x)
      else if x < 0 then (if 0 \<le> y then arctan (y / x) + pi else arctan (y / x) - pi)
      else if 0 < y then pi / 2
      else if y < 0 then - (pi / 2)
      else 0)"

text \<open>
  \<^verbatim>\<open>
  def get_alphas_sigmas(t):
      return torch.cos(t * math.pi / 2), torch.sin(t * math.pi / 2)
  \<close>
\<close>

definition get_alphas_sigmas :: "real \<Rightarrow> real \<times> real" where
  "get_alphas_sigmas t = (cos (t * pi / 2), sin (t * pi / 2))"

text \<open>
  \<^verbatim>\<open>
  def alpha_sigma_to_t(alpha, sigma):
      return torch.atan2(sigma, alpha) / math.pi * 2
  \<close>
\<close>

definition alpha_sigma_to_t :: "real \<Rightarrow> real \<Rightarrow> real" where
  "alpha_sigma_to_t alpha sigma = atan2 sigma alpha / pi * 2"

text \<open>
  \<^verbatim>\<open>
  def get_crash_schedule(t):
      sigma = torch.sin(t * math.pi / 2) ** 2
      alpha = (1 - sigma ** 2) ** 0.5
      return alpha_sigma_to_t(alpha, sigma)
  \<close>
  The radicand \<open>1 - sigma\<^sup>2\<close> is never negative, since \<open>sigma\<close> is the square of a
  sine, so \<^verbatim>\<open>** 0.5\<close> is the square root.
\<close>

definition get_crash_schedule :: "real \<Rightarrow> real" where
  "get_crash_schedule t =
     (let sigma = (sin (t * pi / 2))\<^sup>2;
          alpha = sqrt (1 - sigma\<^sup>2)
      in alpha_sigma_to_t alpha sigma)"

section \<open>Tensors\<close>

text \<open>
  A number inside a tensor is a real or NaN, which is \<open>None\<close>. NaN is what the
  program's \<^verbatim>\<open>.sqrt()\<close> gives for a negative number, and every product, sum and
  difference with a NaN is NaN again.
\<close>

type_synonym num = "real option"

definition nan_lift :: "(real \<Rightarrow> real \<Rightarrow> real) \<Rightarrow> num \<Rightarrow> num \<Rightarrow> num" where
  "nan_lift f a b =
     (case a of
        None \<Rightarrow> None
      | Some p \<Rightarrow> (case b of None \<Rightarrow> None | Some q \<Rightarrow> Some (f p q)))"

definition torch_sqrt :: "num \<Rightarrow> num" where
  "torch_sqrt a =
     (case a of
        None \<Rightarrow> None
      | Some r \<Rightarrow> if r < 0 then None else Some (sqrt r))"

text \<open>
  A tensor is its shape and its elements in row-major order, as torch stores it; a
  tensor of the program has as many elements as its shape says. Only the
  operations that \<^verbatim>\<open>sample\<close> uses are modelled: multiplication by a number,
  elementwise sum and difference of two tensors, \<^verbatim>\<open>x.new_ones([x.shape[0]])\<close> and
  \<^verbatim>\<open>torch.randn_like\<close>.

  The sum of two tensors of different shapes is \<open>RuntimeError\<close> here. (torch
  raises it unless the shapes can be broadcast; no broadcast of two tensors
  happens in \<^verbatim>\<open>sample\<close> when the denoiser returns the shape of its input, and the
  theorems below are about such denoisers.)
\<close>

text \<open>
  The exceptions of Python that matter here. \<open>ValueError\<close> is Python's error for an
  argument of the right type and an unacceptable value; no path of \<^verbatim>\<open>sample\<close>
  raises it.
\<close>

datatype py_error = UnboundLocalError | RuntimeError | IndexError | ValueError

record tensor =
  shape :: "nat list"
  elems :: "num list"

text \<open>A tensor none of whose elements is NaN.\<close>

definition no_nan :: "tensor \<Rightarrow> bool" where
  "no_nan a \<longleftrightarrow> None \<notin> set (elems a)"

definition scale :: "tensor \<Rightarrow> num \<Rightarrow> tensor" where
  "scale a c = \<lparr>shape = shape a, elems = map (\<lambda>e. nan_lift (\<lambda>p q. p * q) e c) (elems a)\<rparr>"

definition pointwise :: "(real \<Rightarrow> real \<Rightarrow> real) \<Rightarrow> tensor \<Rightarrow> tensor \<Rightarrow> py_error + tensor" where
  "pointwise f a b =
     (if shape a = shape b
      then Inr \<lparr>shape = shape a, elems = map2 (nan_lift f) (elems a) (elems b)\<rparr>
      else Inl RuntimeError)"

definition tadd :: "tensor \<Rightarrow> tensor \<Rightarrow> py_error + tensor" where
  "tadd a b = pointwise (\<lambda>p q. p + q) a b"

definition tsub :: "tensor \<Rightarrow> tensor \<Rightarrow> py_error + tensor" where
  "tsub a b = pointwise (\<lambda>p q. p - q) a b"

text \<open>
  \<^verbatim>\<open>x.new_ones([x.shape[0]])\<close>: a vector of ones, one for each example of the batch.
  A tensor without dimensions has no \<^verbatim>\<open>shape[0]\<close>.
\<close>

definition new_ones_batch :: "tensor \<Rightarrow> py_error + tensor" where
  "new_ones_batch a =
     (case shape a of
        [] \<Rightarrow> Inl IndexError
      | b # _ \<Rightarrow> Inr \<lparr>shape = [b], elems = replicate b (Some 1)\<rparr>)"

text \<open>
  The random generator is a parameter: \<open>rng k j\<close> is element \<open>j\<close> of the \<open>k\<close>-th tensor
  it hands out. \<^verbatim>\<open>torch.randn_like(x)\<close> asks for a tensor of the shape of \<open>x\<close>.
\<close>

definition randn_like :: "(nat \<Rightarrow> nat \<Rightarrow> real) \<Rightarrow> nat \<Rightarrow> tensor \<Rightarrow> tensor" where
  "randn_like rng k a =
     \<lparr>shape = shape a, elems = map (\<lambda>j. Some (rng k j)) [0..<length (elems a)]\<rparr>"

text \<open>
  \<^verbatim>\<open>torch.linspace(start, end, n)\<close>: \<open>n\<close> points from \<open>start\<close> to \<open>end\<close> at equal
  distances, the single point \<open>start\<close> when \<open>n = 1\<close>, and an error when \<open>n\<close> is
  negative.
\<close>

definition linspace :: "real \<Rightarrow> real \<Rightarrow> int \<Rightarrow> py_error + real list" where
  "linspace a b n =
     (if n < 0 then Inl RuntimeError
      else if n = 1 then Inr [a]
      else Inr (map (\<lambda>i. a + real i * ((b - a) / (real_of_int n - 1))) [0..<nat n]))"

section \<open>The sampling loop\<close>

text \<open>
  The state of the loop: the variables \<^verbatim>\<open>x\<close> and \<^verbatim>\<open>pred\<close> (unbound before the
  first iteration), and two observers that the program does not have: how many
  tensors the random generator has handed out, and the arguments of every call
  of the denoiser, in order.
\<close>

record state =
  cur_x :: tensor
  cur_pred :: "tensor option"
  draws :: nat
  calls :: "(tensor \<times> tensor) list"

definition init_state :: "tensor \<Rightarrow> state" where
  "init_state x0 = \<lparr>cur_x = x0, cur_pred = None, draws = 0, calls = []\<rparr>"

type_synonym denoiser = "tensor \<Rightarrow> tensor \<Rightarrow> tensor"

type_synonym 'a outcome = "(py_error \<times> state) + 'a"

text \<open>
  One iteration of the loop, lines 50 to 73:
  \<^verbatim>\<open>
  v = model(x, ts * t[i]).float()
  pred = x * alphas[i] - v * sigmas[i]
  eps = x * sigmas[i] + v * alphas[i]
  if i < steps - 1:
      ddim_sigma = eta * (sigmas[i + 1]**2 / sigmas[i]**2).sqrt() * \
          (1 - alphas[i]**2 / alphas[i + 1]**2).sqrt()
      adjusted_sigma = (sigmas[i + 1]**2 - ddim_sigma**2).sqrt()
      x = pred * alphas[i + 1] + eps * adjusted_sigma
      if eta:
          x += torch.randn_like(x) * ddim_sigma
  \<close>
  The lists \<open>t\<close>, \<open>alphas\<close> and \<open>sigmas\<close> have \<open>steps\<close> elements and \<open>i\<close> runs over
  \<open>range(steps)\<close>, so every index is in range (\<open>sample_schedule_length\<close> below);
  the divisors are not zero (\<open>sample_step_well_defined\<close> below). The elements of
  \<open>t\<close>, \<open>alphas\<close> and \<open>sigmas\<close> are sines, cosines and arcus tangents of reals,
  never NaN. Each of the three \<^verbatim>\<open>.sqrt()\<close> is \<open>torch_sqrt\<close>, so \<open>ddim_sigma\<close> and
  \<open>adjusted_sigma\<close> are NaN when their radicand is negative, and then so is
  every element of the next \<open>x\<close>.
\<close>

definition sample_step ::
  "denoiser \<Rightarrow> (nat \<Rightarrow> nat \<Rightarrow> real) \<Rightarrow> real \<Rightarrow> int \<Rightarrow> tensor \<Rightarrow> real list \<Rightarrow> real list \<Rightarrow> real list
   \<Rightarrow> nat \<Rightarrow> state \<Rightarrow> state outcome" where
  "sample_step model rng eta steps ts t alphas sigmas i st =
     (let arg = scale ts (Some (t ! i));
          v = model (cur_x st) arg;
          st1 = st\<lparr>calls := calls st @ [(cur_x st, arg)]\<rparr>
      in case tsub (scale (cur_x st) (Some (alphas ! i))) (scale v (Some (sigmas ! i))) of
           Inl e \<Rightarrow> Inl (e, st1)
         | Inr pred \<Rightarrow>
      (let st2 = st1\<lparr>cur_pred := Some pred\<rparr>
       in case tadd (scale (cur_x st) (Some (sigmas ! i))) (scale v (Some (alphas ! i))) of
            Inl e \<Rightarrow> Inl (e, st2)
          | Inr eps \<Rightarrow>
              if int i < steps - 1 then
                (let ddim_sigma =
                       nan_lift (\<lambda>p q. p * q)
                         (nan_lift (\<lambda>p q. p * q) (Some eta)
                            (torch_sqrt (Some ((sigmas ! (i + 1))\<^sup>2 / (sigmas ! i)\<^sup>2))))
                         (torch_sqrt (Some (1 - (alphas ! i)\<^sup>2 / (alphas ! (i + 1))\<^sup>2)));
                     adjusted_sigma =
                       torch_sqrt
                         (nan_lift (\<lambda>p q. p - q) (Some ((sigmas ! (i + 1))\<^sup>2))
                            (map_option (\<lambda>d. d\<^sup>2) ddim_sigma))
                 in case tadd (scale pred (Some (alphas ! (i + 1)))) (scale eps adjusted_sigma) of
                      Inl e \<Rightarrow> Inl (e, st2)
                    | Inr x1 \<Rightarrow>
                        if eta \<noteq> 0 then
                          (case tadd x1 (scale (randn_like rng (draws st2) x1) ddim_sigma) of
                             Inl e \<Rightarrow> Inl (e, st2\<lparr>cur_x := x1, draws := Suc (draws st2)\<rparr>)
                           | Inr x2 \<Rightarrow> Inr (st2\<lparr>cur_x := x2, draws := Suc (draws st2)\<rparr>))
                        else Inr (st2\<lparr>cur_x := x1\<rparr>))
              else Inr st2))"

text \<open>\<^verbatim>\<open>for i in ...\<close>: the body on every index in turn, until one raises.\<close>

fun for_range :: "(nat \<Rightarrow> state \<Rightarrow> state outcome) \<Rightarrow> nat list \<Rightarrow> state \<Rightarrow> state outcome" where
  "for_range body [] st = Inr st"
| "for_range body (i # is) st =
     (case body i st of Inl e \<Rightarrow> Inl e | Inr st' \<Rightarrow> for_range body is st')"

text \<open>
  Lines 41 to 43, the timesteps:
  \<^verbatim>\<open>
  t = torch.linspace(1, 0, steps + 1)[:-1]
  t = get_crash_schedule(t)
  \<close>
\<close>

definition sample_schedule :: "int \<Rightarrow> py_error + real list" where
  "sample_schedule steps =
     (case linspace 1 0 (steps + 1) of
        Inl e \<Rightarrow> Inl e
      | Inr l \<Rightarrow> Inr (map get_crash_schedule (butlast l)))"

text \<open>
  \<open>sample_upto k\<close> is \<^verbatim>\<open>sample\<close> from its first line to the end of the first \<open>k\<close>
  iterations of the loop; \<^verbatim>\<open>sample\<close> itself runs \<open>range(steps)\<close>, which is empty for
  \<open>steps \<le> 0\<close>, and then returns \<^verbatim>\<open>pred\<close>, which raises \<open>UnboundLocalError\<close> when
  no iteration has bound it.
\<close>

definition sample_upto ::
  "denoiser \<Rightarrow> (nat \<Rightarrow> nat \<Rightarrow> real) \<Rightarrow> tensor \<Rightarrow> int \<Rightarrow> real \<Rightarrow> nat \<Rightarrow> state outcome" where
  "sample_upto model rng x0 steps eta k =
     (case new_ones_batch x0 of
        Inl e \<Rightarrow> Inl (e, init_state x0)
      | Inr ts \<Rightarrow>
     (case sample_schedule steps of
        Inl e \<Rightarrow> Inl (e, init_state x0)
      | Inr t \<Rightarrow>
          (let alphas = map (\<lambda>u. fst (get_alphas_sigmas u)) t;
               sigmas = map (\<lambda>u. snd (get_alphas_sigmas u)) t
           in for_range (sample_step model rng eta steps ts t alphas sigmas) [0..<k]
                (init_state x0))))"

definition sample_run ::
  "denoiser \<Rightarrow> (nat \<Rightarrow> nat \<Rightarrow> real) \<Rightarrow> tensor \<Rightarrow> int \<Rightarrow> real \<Rightarrow> (tensor \<times> state) outcome" where
  "sample_run model rng x0 steps eta =
     (case sample_upto model rng x0 steps eta (nat steps) of
        Inl e \<Rightarrow> Inl e
      | Inr st \<Rightarrow>
          (case cur_pred st of
             None \<Rightarrow> Inl (UnboundLocalError, st)
           | Some p \<Rightarrow> Inr (p, st)))"

definition sample :: "denoiser \<Rightarrow> (nat \<Rightarrow> nat \<Rightarrow> real) \<Rightarrow> tensor \<Rightarrow> int \<Rightarrow> real \<Rightarrow> py_error + tensor" where
  "sample model rng x0 steps eta =
     (case sample_run model rng x0 steps eta of
        Inl (e, _) \<Rightarrow> Inl e
      | Inr (p, _) \<Rightarrow> Inr p)"

text \<open>The state in which a run ended, whether it returned or raised.\<close>

definition loop_state :: "state outcome \<Rightarrow> state" where
  "loop_state r = (case r of Inl (e, st) \<Rightarrow> st | Inr st \<Rightarrow> st)"

definition run_state :: "(tensor \<times> state) outcome \<Rightarrow> state" where
  "run_state r = (case r of Inl (e, st) \<Rightarrow> st | Inr (p, st) \<Rightarrow> st)"

text \<open>
  What the sampler asks of a denoiser: a velocity of the shape of its first
  argument.
\<close>

definition shape_preserving :: "denoiser \<Rightarrow> bool" where
  "shape_preserving model \<longleftrightarrow>
     (\<forall>a ts. shape (model a ts) = shape a \<and> length (elems (model a ts)) = length (elems a))"

section \<open>Facts about the schedule\<close>

lemma atan2_unit_circle:
  assumes "0 \<le> s" "s \<le> 1"
  shows "atan2 s (sqrt (1 - s\<^sup>2)) = arcsin s"
proof (cases "s = 1")
  case True
  then show ?thesis by (simp add: atan2_def)
next
  case False
  with assms have lt: "s < 1" by simp
  from assms lt have "s\<^sup>2 < 1" by (simp add: power_less_one_iff abs_square_less_1)
  then have pos: "0 < sqrt (1 - s\<^sup>2)" by simp
  from assms lt have "arcsin s = arctan (s / sqrt (1 - s\<^sup>2))"
    by (intro arcsin_arctan) auto
  with pos show ?thesis by (simp add: atan2_def)
qed

lemma quarter_turn_bounds:
  assumes "0 \<le> t" "t \<le> 1"
  shows "0 \<le> t * pi / 2" "t * pi / 2 \<le> pi / 2" "- (pi / 2) \<le> t * pi / 2" "t * pi / 2 \<le> pi"
proof -
  from assms show a: "0 \<le> t * pi / 2" by simp
  from assms have "t * pi \<le> 1 * pi" by (intro mult_right_mono) auto
  then show b: "t * pi / 2 \<le> pi / 2" by simp
  from a show "- (pi / 2) \<le> t * pi / 2" using pi_ge_zero by linarith
  from b show "t * pi / 2 \<le> pi" using pi_ge_zero by linarith
qed

lemma sin_sq_unit: "0 \<le> (sin a)\<^sup>2 \<and> (sin a)\<^sup>2 \<le> (1::real)"
  by (simp add: abs_square_le_1 abs_sin_le_one)

lemma get_crash_schedule_arcsin:
  "get_crash_schedule t = arcsin ((sin (t * pi / 2))\<^sup>2) / pi * 2"
proof -
  have "atan2 ((sin (t * pi / 2))\<^sup>2) (sqrt (1 - ((sin (t * pi / 2))\<^sup>2)\<^sup>2))
        = arcsin ((sin (t * pi / 2))\<^sup>2)"
    using sin_sq_unit [of "t * pi / 2"] by (intro atan2_unit_circle) auto
  then show ?thesis
    unfolding get_crash_schedule_def alpha_sigma_to_t_def Let_def by (rule arg_cong)
qed

text \<open>
  C4. For every timestep \<open>t\<close>, \<open>get_alphas_sigmas t\<close> is exactly
  \<open>(cos (t\<sqdot>\<pi>/2), sin (t\<sqdot>\<pi>/2))\<close>; hence \<open>alpha\<^sup>2 + sigma\<^sup>2 = 1\<close> for all \<open>t\<close>, and over
  \<open>[0, 1]\<close> alpha decreases and sigma increases with \<open>t\<close>.
\<close>

theorem get_alphas_sigmas_spec:
  "get_alphas_sigmas t = (cos (t * pi / 2), sin (t * pi / 2))
   \<and> (fst (get_alphas_sigmas t))\<^sup>2 + (snd (get_alphas_sigmas t))\<^sup>2 = 1
   \<and> (\<forall>t1 t2. 0 \<le> t1 \<and> t1 \<le> t2 \<and> t2 \<le> 1 \<longrightarrow>
         fst (get_alphas_sigmas t2) \<le> fst (get_alphas_sigmas t1)
       \<and> snd (get_alphas_sigmas t1) \<le> snd (get_alphas_sigmas t2))
   \<and> (\<forall>t1 t2. 0 \<le> t1 \<and> t1 < t2 \<and> t2 \<le> 1 \<longrightarrow>
         fst (get_alphas_sigmas t2) < fst (get_alphas_sigmas t1)
       \<and> snd (get_alphas_sigmas t1) < snd (get_alphas_sigmas t2))"
proof (intro conjI allI impI)
  show "get_alphas_sigmas t = (cos (t * pi / 2), sin (t * pi / 2))"
    by (simp add: get_alphas_sigmas_def)
  show "(fst (get_alphas_sigmas t))\<^sup>2 + (snd (get_alphas_sigmas t))\<^sup>2 = 1"
    by (simp add: get_alphas_sigmas_def)
next
  fix t1 t2 :: real
  assume h: "0 \<le> t1 \<and> t1 \<le> t2 \<and> t2 \<le> 1"
  then have a: "0 \<le> t1 * pi / 2" "t1 * pi / 2 \<le> t2 * pi / 2" "t2 * pi / 2 \<le> pi / 2"
    by (simp_all add: mult_right_mono)
  from a have "t2 * pi / 2 \<le> pi" using pi_ge_zero by linarith
  with a show "fst (get_alphas_sigmas t2) \<le> fst (get_alphas_sigmas t1)"
    unfolding get_alphas_sigmas_def fst_conv by (intro cos_monotone_0_pi_le) auto
  from a have "- (pi / 2) \<le> t1 * pi / 2" using pi_ge_zero by linarith
  with a show "snd (get_alphas_sigmas t1) \<le> snd (get_alphas_sigmas t2)"
    unfolding get_alphas_sigmas_def snd_conv by (intro sin_monotone_2pi_le) auto
next
  fix t1 t2 :: real
  assume h: "0 \<le> t1 \<and> t1 < t2 \<and> t2 \<le> 1"
  then have a: "0 \<le> t1 * pi / 2" "t1 * pi / 2 < t2 * pi / 2" "t2 * pi / 2 \<le> pi / 2"
    by (simp_all add: mult_right_mono)
  from a have "t2 * pi / 2 \<le> pi" using pi_ge_zero by linarith
  with a show "fst (get_alphas_sigmas t2) < fst (get_alphas_sigmas t1)"
    unfolding get_alphas_sigmas_def fst_conv by (intro cos_monotone_0_pi) auto
  from a have "- (pi / 2) \<le> t1 * pi / 2" using pi_ge_zero by linarith
  with a show "snd (get_alphas_sigmas t1) < snd (get_alphas_sigmas t2)"
    unfolding get_alphas_sigmas_def snd_conv by (intro sin_monotone_2pi) auto
qed

theorem get_alphas_sigmas_spec_witness:
  "(0::real) \<le> 0 \<and> (0::real) < 1 \<and> (1::real) \<le> 1
   \<and> get_alphas_sigmas 0 = (cos (0 * pi / 2), sin (0 * pi / 2))
   \<and> fst (get_alphas_sigmas 1) < fst (get_alphas_sigmas 0)
   \<and> snd (get_alphas_sigmas 0) < snd (get_alphas_sigmas 1)"
proof -
  have strict: "\<forall>t1 t2. 0 \<le> t1 \<and> t1 < t2 \<and> t2 \<le> 1 \<longrightarrow>
         fst (get_alphas_sigmas t2) < fst (get_alphas_sigmas t1)
       \<and> snd (get_alphas_sigmas t1) < snd (get_alphas_sigmas t2)"
    and eq: "get_alphas_sigmas 0 = (cos (0 * pi / 2), sin (0 * pi / 2))"
    using get_alphas_sigmas_spec [of 0] by blast+
  have "(0::real) \<le> 0 \<and> (0::real) < 1 \<and> (1::real) \<le> 1" by simp
  with strict eq show ?thesis by blast
qed

text \<open>
  C5. \<open>alpha_sigma_to_t\<close> computes \<open>atan2 sigma alpha / (\<pi>/2)\<close>, and applied to the pair
  that \<open>get_alphas_sigmas\<close> returns for a \<open>t\<close> of \<open>[0, 1]\<close> it gives \<open>t\<close> back. In exact
  arithmetic the law holds at the two boundary points as well.
\<close>

theorem alpha_sigma_to_t_round_trip:
  "alpha_sigma_to_t alpha sigma = atan2 sigma alpha / (pi / 2)
   \<and> (0 \<le> t \<and> t \<le> 1 \<longrightarrow>
        alpha_sigma_to_t (fst (get_alphas_sigmas t)) (snd (get_alphas_sigmas t)) = t)"
proof (intro conjI impI)
  show "alpha_sigma_to_t alpha sigma = atan2 sigma alpha / (pi / 2)"
    by (simp add: alpha_sigma_to_t_def)
next
  assume h: "0 \<le> t \<and> t \<le> 1"
  have "atan2 (sin (t * pi / 2)) (cos (t * pi / 2)) = t * pi / 2"
  proof (cases "t = 1")
    case True
    then show ?thesis by (simp add: atan2_def)
  next
    case False
    with h have lt: "t < 1" by simp
    from h have "0 \<le> t * pi / 2" by (intro quarter_turn_bounds) auto
    then have lo: "- (pi / 2) < t * pi / 2" using pi_gt_zero by linarith
    from lt have hi: "t * pi / 2 < pi / 2"
      using pi_gt_zero by simp
    from lo hi have pos: "0 < cos (t * pi / 2)" by (rule cos_gt_zero_pi)
    have "arctan (sin (t * pi / 2) / cos (t * pi / 2)) = arctan (tan (t * pi / 2))"
      by (simp add: tan_def)
    also from lo hi have "\<dots> = t * pi / 2" by (rule arctan_tan)
    finally show ?thesis using pos by (simp add: atan2_def)
  qed
  then show "alpha_sigma_to_t (fst (get_alphas_sigmas t)) (snd (get_alphas_sigmas t)) = t"
    by (simp add: alpha_sigma_to_t_def get_alphas_sigmas_def)
qed

theorem alpha_sigma_to_t_round_trip_witness:
  "(0::real) \<le> 1 / 2 \<and> (1::real) / 2 \<le> 1
   \<and> alpha_sigma_to_t (fst (get_alphas_sigmas (1 / 2))) (snd (get_alphas_sigmas (1 / 2))) = 1 / 2"
  using alpha_sigma_to_t_round_trip [of 0 0 "1 / 2"] by simp

text \<open>
  C6. \<open>get_crash_schedule\<close> keeps the endpoints, \<open>0\<close> to \<open>0\<close> and \<open>1\<close> to \<open>1\<close>, and is
  monotonically non-decreasing over \<open>[0, 1]\<close>.
\<close>

theorem get_crash_schedule_endpoints_mono:
  "get_crash_schedule 0 = 0 \<and> get_crash_schedule 1 = 1
   \<and> (0 \<le> t1 \<and> t1 \<le> t2 \<and> t2 \<le> 1 \<longrightarrow> get_crash_schedule t1 \<le> get_crash_schedule t2)"
proof (intro conjI impI)
  show "get_crash_schedule 0 = 0" by (simp add: get_crash_schedule_arcsin)
  show "get_crash_schedule 1 = 1" by (simp add: get_crash_schedule_arcsin)
next
  assume h: "0 \<le> t1 \<and> t1 \<le> t2 \<and> t2 \<le> 1"
  then have a: "0 \<le> t1 * pi / 2" "t1 * pi / 2 \<le> t2 * pi / 2" "t2 * pi / 2 \<le> pi / 2"
    by (simp_all add: mult_right_mono)
  from a have lo: "- (pi / 2) \<le> t1 * pi / 2" using pi_ge_zero by linarith
  from a have "t1 * pi / 2 \<le> pi" using pi_ge_zero by linarith
  with a(1) have s0: "0 \<le> sin (t1 * pi / 2)" by (rule sin_ge_zero)
  from lo a(2) a(3) have "sin (t1 * pi / 2) \<le> sin (t2 * pi / 2)"
    by (rule sin_monotone_2pi_le)
  with s0 have "(sin (t1 * pi / 2))\<^sup>2 \<le> (sin (t2 * pi / 2))\<^sup>2"
    by (intro power_mono) auto
  moreover have "- 1 \<le> (sin (t1 * pi / 2))\<^sup>2"
    using sin_sq_unit [of "t1 * pi / 2"] by linarith
  moreover have "(sin (t2 * pi / 2))\<^sup>2 \<le> 1"
    using sin_sq_unit [of "t2 * pi / 2"] by simp
  ultimately have "arcsin ((sin (t1 * pi / 2))\<^sup>2) \<le> arcsin ((sin (t2 * pi / 2))\<^sup>2)"
    by (intro arcsin_le_arcsin)
  then show "get_crash_schedule t1 \<le> get_crash_schedule t2"
    using pi_gt_zero by (simp add: get_crash_schedule_arcsin divide_right_mono)
qed

theorem get_crash_schedule_endpoints_mono_witness:
  "(0::real) \<le> 0 \<and> (0::real) \<le> 1 \<and> (1::real) \<le> 1
   \<and> get_crash_schedule 0 = 0 \<and> get_crash_schedule 1 = 1
   \<and> get_crash_schedule 0 \<le> get_crash_schedule 1"
  using get_crash_schedule_endpoints_mono [of 0 1] by simp

lemma sigma_crash_eq:
  "snd (get_alphas_sigmas (get_crash_schedule t)) = (sin (t * pi / 2))\<^sup>2"
proof -
  have "get_crash_schedule t * pi / 2 = arcsin ((sin (t * pi / 2))\<^sup>2)"
    by (simp add: get_crash_schedule_arcsin)
  moreover have "- 1 \<le> (sin (t * pi / 2))\<^sup>2" "(sin (t * pi / 2))\<^sup>2 \<le> 1"
    using sin_sq_unit [of "t * pi / 2"] by linarith+
  ultimately show ?thesis
    unfolding get_alphas_sigmas_def snd_conv by (simp only: sin_arcsin)
qed

lemma alpha_crash_eq:
  "fst (get_alphas_sigmas (get_crash_schedule t)) = sqrt (1 - ((sin (t * pi / 2))\<^sup>2)\<^sup>2)"
proof -
  have "get_crash_schedule t * pi / 2 = arcsin ((sin (t * pi / 2))\<^sup>2)"
    by (simp add: get_crash_schedule_arcsin)
  moreover have "- 1 \<le> (sin (t * pi / 2))\<^sup>2" "(sin (t * pi / 2))\<^sup>2 \<le> 1"
    using sin_sq_unit [of "t * pi / 2"] by linarith+
  ultimately show ?thesis
    unfolding get_alphas_sigmas_def fst_conv by (simp only: cos_arcsin)
qed

lemma sq_diff_lt:
  fixes p q :: real
  assumes "p < q" "p + q < 1"
  shows "q\<^sup>2 - p\<^sup>2 < q - p"
proof -
  have "q\<^sup>2 - p\<^sup>2 = (q - p) * (q + p)" by (simp add: power2_eq_square algebra_simps)
  also from assms have "\<dots> < (q - p) * 1" by (intro mult_strict_left_mono) auto
  finally show ?thesis by simp
qed

lemma sq_diff_gt:
  fixes p q :: real
  assumes "p < q" "1 < p + q"
  shows "q - p < q\<^sup>2 - p\<^sup>2"
proof -
  from assms have "(q - p) * 1 < (q - p) * (q + p)" by (intro mult_strict_left_mono) auto
  also have "\<dots> = q\<^sup>2 - p\<^sup>2" by (simp add: power2_eq_square algebra_simps)
  finally show ?thesis by simp
qed

lemma sin_third: "sin (1 / 3 * pi / 2) = 1 / 2"
proof -
  have "(1::real) / 3 * pi / 2 = pi / 6" by simp
  then show ?thesis by (simp only: sin_30)
qed

text \<open>
  C7 (amended). For every \<open>t\<close> the noise coefficient of the warped schedule is the
  square of the unwarped one, \<open>sin (crash t\<sqdot>\<pi>/2) = (sin (t\<sqdot>\<pi>/2))\<^sup>2\<close>. Over \<open>[0, 1/3]\<close>,
  the clean end, it grows strictly less than the unwarped coefficient between any
  two timesteps, and over \<open>[1/3, 1]\<close> strictly more: the warp delays the growth of
  noise near \<open>t = 0\<close> and accelerates it toward the noisy end.
\<close>

theorem crash_sigma_growth:
  "snd (get_alphas_sigmas (get_crash_schedule t)) = (snd (get_alphas_sigmas t))\<^sup>2
   \<and> (0 \<le> t1 \<and> t1 < t2 \<and> t2 \<le> 1 / 3 \<longrightarrow>
        snd (get_alphas_sigmas (get_crash_schedule t2)) - snd (get_alphas_sigmas (get_crash_schedule t1))
        < snd (get_alphas_sigmas t2) - snd (get_alphas_sigmas t1))
   \<and> (1 / 3 \<le> t1 \<and> t1 < t2 \<and> t2 \<le> 1 \<longrightarrow>
        snd (get_alphas_sigmas t2) - snd (get_alphas_sigmas t1)
        < snd (get_alphas_sigmas (get_crash_schedule t2)) - snd (get_alphas_sigmas (get_crash_schedule t1)))"
proof (intro conjI impI)
  show "snd (get_alphas_sigmas (get_crash_schedule t)) = (snd (get_alphas_sigmas t))\<^sup>2"
    by (simp add: sigma_crash_eq) (simp add: get_alphas_sigmas_def)
next
  assume h: "0 \<le> t1 \<and> t1 < t2 \<and> t2 \<le> 1 / 3"
  then have b1: "0 \<le> t1" "t1 \<le> 1" and b2: "0 \<le> t2" "t2 \<le> 1" by auto
  have lt: "t1 * pi / 2 < t2 * pi / 2" using h pi_gt_zero by simp
  have le3: "t2 * pi / 2 \<le> 1 / 3 * pi / 2" using h pi_gt_zero by simp
  have "sin (t1 * pi / 2) < sin (t2 * pi / 2)"
    using quarter_turn_bounds(3) [OF b1] lt quarter_turn_bounds(2) [OF b2]
    by (rule sin_monotone_2pi)
  moreover have "sin (t2 * pi / 2) \<le> sin (1 / 3 * pi / 2)"
    using quarter_turn_bounds(3) [OF b2] le3
    by (rule sin_monotone_2pi_le) simp
  ultimately have "sin (t1 * pi / 2) < sin (t2 * pi / 2)"
    "sin (t1 * pi / 2) + sin (t2 * pi / 2) < 1"
    unfolding sin_third by linarith+
  then have "(sin (t2 * pi / 2))\<^sup>2 - (sin (t1 * pi / 2))\<^sup>2 < sin (t2 * pi / 2) - sin (t1 * pi / 2)"
    by (rule sq_diff_lt)
  then show "snd (get_alphas_sigmas (get_crash_schedule t2)) - snd (get_alphas_sigmas (get_crash_schedule t1))
        < snd (get_alphas_sigmas t2) - snd (get_alphas_sigmas t1)"
    unfolding sigma_crash_eq by (simp add: get_alphas_sigmas_def)
next
  assume h: "1 / 3 \<le> t1 \<and> t1 < t2 \<and> t2 \<le> 1"
  then have b1: "0 \<le> t1" "t1 \<le> 1" and b2: "0 \<le> t2" "t2 \<le> 1" by auto
  have lt: "t1 * pi / 2 < t2 * pi / 2" using h pi_gt_zero by simp
  have le3: "1 / 3 * pi / 2 \<le> t1 * pi / 2" using h pi_gt_zero by simp
  have "sin (t1 * pi / 2) < sin (t2 * pi / 2)"
    using quarter_turn_bounds(3) [OF b1] lt quarter_turn_bounds(2) [OF b2]
    by (rule sin_monotone_2pi)
  moreover have "sin (1 / 3 * pi / 2) \<le> sin (t1 * pi / 2)"
    using _ le3 quarter_turn_bounds(2) [OF b1]
    by (rule sin_monotone_2pi_le) (use pi_gt_zero in simp)
  ultimately have "sin (t1 * pi / 2) < sin (t2 * pi / 2)"
    "1 < sin (t1 * pi / 2) + sin (t2 * pi / 2)"
    unfolding sin_third by linarith+
  then have "sin (t2 * pi / 2) - sin (t1 * pi / 2) < (sin (t2 * pi / 2))\<^sup>2 - (sin (t1 * pi / 2))\<^sup>2"
    by (rule sq_diff_gt)
  then show "snd (get_alphas_sigmas t2) - snd (get_alphas_sigmas t1)
        < snd (get_alphas_sigmas (get_crash_schedule t2)) - snd (get_alphas_sigmas (get_crash_schedule t1))"
    unfolding sigma_crash_eq by (simp add: get_alphas_sigmas_def)
qed

theorem crash_sigma_growth_witness:
  "(0::real) \<le> 0 \<and> (0::real) < 1 / 3 \<and> (1::real) / 3 \<le> 1 / 3 \<and> (1::real) / 3 < 1 \<and> (1::real) \<le> 1
   \<and> snd (get_alphas_sigmas (get_crash_schedule (1 / 3))) - snd (get_alphas_sigmas (get_crash_schedule 0))
        < snd (get_alphas_sigmas (1 / 3)) - snd (get_alphas_sigmas 0)
   \<and> snd (get_alphas_sigmas 1) - snd (get_alphas_sigmas (1 / 3))
        < snd (get_alphas_sigmas (get_crash_schedule 1)) - snd (get_alphas_sigmas (get_crash_schedule (1 / 3)))"
  using crash_sigma_growth [of 0 0 "1 / 3"] crash_sigma_growth [of 0 "1 / 3" 1] by simp

text \<open>
  The claim as it was stated, that near \<open>t = 0\<close> the warped coefficient grows more
  steeply than the unwarped one, fails: no interval \<open>(0, d)\<close> exists on which the
  warped coefficient has grown more since \<open>t = 0\<close> than the unwarped one.
\<close>

theorem crash_steeper_near_zero_counterexample:
  "\<not> (\<exists>d>0. \<forall>t. 0 < t \<and> t < d \<longrightarrow>
        snd (get_alphas_sigmas t) - snd (get_alphas_sigmas 0)
        < snd (get_alphas_sigmas (get_crash_schedule t)) - snd (get_alphas_sigmas (get_crash_schedule 0)))"
proof
  assume "\<exists>d>0. \<forall>t. 0 < t \<and> t < d \<longrightarrow>
        snd (get_alphas_sigmas t) - snd (get_alphas_sigmas 0)
        < snd (get_alphas_sigmas (get_crash_schedule t)) - snd (get_alphas_sigmas (get_crash_schedule 0))"
  then obtain d where d: "0 < d"
    and all: "\<And>t. 0 < t \<and> t < d \<Longrightarrow> snd (get_alphas_sigmas t) - snd (get_alphas_sigmas 0)
        < snd (get_alphas_sigmas (get_crash_schedule t)) - snd (get_alphas_sigmas (get_crash_schedule 0))"
    by blast
  define t where "t = min d 1 / 2"
  from d have t: "0 < t" "t < d" "t < 1" by (simp_all add: t_def min_def)
  from all [of t] t have "sin (t * pi / 2) < (sin (t * pi / 2))\<^sup>2"
    unfolding sigma_crash_eq by (simp add: get_alphas_sigmas_def)
  moreover have "0 < sin (t * pi / 2)"
  proof (rule sin_gt_zero)
    from t show "0 < t * pi / 2" using pi_gt_zero by simp
    from t have "t * pi < 1 * pi" using pi_gt_zero by (intro mult_strict_right_mono) auto
    then show "t * pi / 2 < pi" using pi_gt_zero by linarith
  qed
  moreover have "sin (t * pi / 2) \<le> 1" by simp
  ultimately show False
    by (smt (verit) mult_left_le power2_eq_square)
qed

section \<open>Facts about the sampling loop\<close>

lemma shape_scale [simp]: "shape (scale a c) = shape a"
  by (simp add: scale_def)

lemma elems_scale [simp]:
  "elems (scale a c) = map (\<lambda>e. nan_lift (\<lambda>p q. p * q) e c) (elems a)"
  by (simp add: scale_def)

lemma nan_lift_Some [simp]: "nan_lift f (Some p) (Some q) = Some (f p q)"
  by (simp add: nan_lift_def)

lemma nan_lift_None [simp]: "nan_lift f None b = None" "nan_lift f a None = None"
  by (simp_all add: nan_lift_def split: option.splits)

lemma torch_sqrt_Some:
  "torch_sqrt (Some r) = (if r < 0 then None else Some (sqrt r))"
  by (simp add: torch_sqrt_def)

lemma torch_sqrt_nonneg: "0 \<le> r \<Longrightarrow> torch_sqrt (Some r) = Some (sqrt r)"
  by (simp add: torch_sqrt_def)

lemma linspace_upto:
  assumes "1 \<le> steps"
  shows "linspace 1 0 (steps + 1) =
         Inr (map (\<lambda>i. 1 - real i / real_of_int steps) [0..<Suc (nat steps)])"
proof -
  from assms have "nat (steps + 1) = Suc (nat steps)" by simp
  with assms show ?thesis by (simp add: linspace_def)
qed

lemma sample_schedule_pos:
  assumes "1 \<le> steps"
  shows "sample_schedule steps =
         Inr (map (\<lambda>i. get_crash_schedule (1 - real i / real_of_int steps)) [0..<nat steps])"
proof -
  have "butlast (map (\<lambda>i. 1 - real i / real_of_int steps) [0..<Suc (nat steps)])
        = map (\<lambda>i. 1 - real i / real_of_int steps) [0..<nat steps]"
    by (simp only: upt_Suc_append [OF le0] map_append butlast_snoc list.map)
  then show ?thesis
    by (simp add: sample_schedule_def linspace_upto [OF assms] comp_def)
qed

lemma sample_schedule_nonpos:
  "steps = 0 \<or> steps = - 1 \<Longrightarrow> sample_schedule steps = Inr []"
  by (auto simp: sample_schedule_def linspace_def)

lemma sample_schedule_neg:
  "steps < - 1 \<Longrightarrow> sample_schedule steps = Inl RuntimeError"
  by (simp add: sample_schedule_def linspace_def)

lemma for_range_append:
  "for_range body (xs @ ys) st =
     (case for_range body xs st of Inl e \<Rightarrow> Inl e | Inr st' \<Rightarrow> for_range body ys st')"
  by (induction xs arbitrary: st) (auto split: sum.splits)

lemma for_range_Suc:
  "for_range body [0..<Suc k] st =
     (case for_range body [0..<k] st of Inl e \<Rightarrow> Inl e | Inr st' \<Rightarrow> body k st')"
  by (simp add: for_range_append split: sum.splits)


lemma sample_step_ok:
  assumes sp: "shape_preserving model"
  shows "\<exists>pred eps x'.
     tsub (scale (cur_x st) (Some (al ! i)))
          (scale (model (cur_x st) (scale ts (Some (t ! i)))) (Some (sg ! i))) = Inr pred
   \<and> tadd (scale (cur_x st) (Some (sg ! i)))
          (scale (model (cur_x st) (scale ts (Some (t ! i)))) (Some (al ! i))) = Inr eps
   \<and> sample_step model rng eta steps ts t al sg i st =
       Inr \<lparr>cur_x = x', cur_pred = Some pred,
            draws = (if int i < steps - 1 \<and> eta \<noteq> 0 then Suc (draws st) else draws st),
            calls = calls st @ [(cur_x st, scale ts (Some (t ! i)))]\<rparr>
   \<and> shape x' = shape (cur_x st) \<and> length (elems x') = length (elems (cur_x st))
   \<and> (if int i < steps - 1 then
         (\<exists>x1. tadd (scale pred (Some (al ! (i + 1))))
                  (scale eps (torch_sqrt
                     (nan_lift (\<lambda>p q. p - q) (Some ((sg ! (i + 1))\<^sup>2))
                        (map_option (\<lambda>d. d\<^sup>2) 
                     (nan_lift (\<lambda>p q. p * q)
                         (nan_lift (\<lambda>p q. p * q) (Some eta)
                            (torch_sqrt (Some ((sg ! (i + 1))\<^sup>2 / (sg ! i)\<^sup>2))))
                         (torch_sqrt (Some (1 - (al ! i)\<^sup>2 / (al ! (i + 1))\<^sup>2)))))))) = Inr x1
            \<and> (if eta \<noteq> 0
                then tadd x1 (scale (randn_like rng (draws st) x1) 
                     (nan_lift (\<lambda>p q. p * q)
                         (nan_lift (\<lambda>p q. p * q) (Some eta)
                            (torch_sqrt (Some ((sg ! (i + 1))\<^sup>2 / (sg ! i)\<^sup>2))))
                         (torch_sqrt (Some (1 - (al ! i)\<^sup>2 / (al ! (i + 1))\<^sup>2))))) = Inr x'
                else x' = x1))
       else x' = cur_x st)"
proof -
  define v where "v = model (cur_x st) (scale ts (Some (t ! i)))"
  from sp have sv: "shape v = shape (cur_x st)" "length (elems v) = length (elems (cur_x st))"
    by (simp_all add: shape_preserving_def v_def)
  show ?thesis
    unfolding v_def [symmetric] sample_step_def Let_def tadd_def tsub_def
    using sv
    by (cases st) (simp add: pointwise_def randn_like_def v_def [symmetric])
qed

lemma sample_schedule_closed:
  assumes "- 1 \<le> steps"
  shows "sample_schedule steps =
         Inr (map (\<lambda>i. get_crash_schedule (1 - real i / real_of_int steps)) [0..<nat steps])"
proof (cases "1 \<le> steps")
  case True
  then show ?thesis by (rule sample_schedule_pos)
next
  case False
  with assms have "steps = 0 \<or> steps = - 1" by linarith
  then show ?thesis by (auto simp: sample_schedule_nonpos)
qed

lemma sample_upto_loop:
  assumes "shape x0 = b # sh" "- 1 \<le> steps"
  shows "sample_upto model rng x0 steps eta k =
     for_range (sample_step model rng eta steps \<lparr>shape = [b], elems = replicate b (Some 1)\<rparr>
        (map (\<lambda>i. get_crash_schedule (1 - real i / real_of_int steps)) [0..<nat steps])
        (map (\<lambda>i. fst (get_alphas_sigmas (get_crash_schedule (1 - real i / real_of_int steps)))) [0..<nat steps])
        (map (\<lambda>i. snd (get_alphas_sigmas (get_crash_schedule (1 - real i / real_of_int steps)))) [0..<nat steps]))
       [0..<k] (init_state x0)"
  using assms(1)
  by (simp add: sample_upto_def new_ones_batch_def sample_schedule_closed [OF assms(2)] comp_def)

lemma sample_upto_0:
  assumes "shape x0 = b # sh" "- 1 \<le> steps"
  shows "sample_upto model rng x0 steps eta 0 = Inr (init_state x0)"
  by (simp add: sample_upto_loop [OF assms])

lemma sample_upto_Suc:
  assumes "shape x0 = b # sh" "- 1 \<le> steps"
  shows "sample_upto model rng x0 steps eta (Suc k) =
     (case sample_upto model rng x0 steps eta k of
        Inl e \<Rightarrow> Inl e
      | Inr st \<Rightarrow>
          sample_step model rng eta steps \<lparr>shape = [b], elems = replicate b (Some 1)\<rparr>
            (map (\<lambda>i. get_crash_schedule (1 - real i / real_of_int steps)) [0..<nat steps])
            (map (\<lambda>i. fst (get_alphas_sigmas (get_crash_schedule (1 - real i / real_of_int steps)))) [0..<nat steps])
            (map (\<lambda>i. snd (get_alphas_sigmas (get_crash_schedule (1 - real i / real_of_int steps)))) [0..<nat steps])
            k st)"
  unfolding sample_upto_loop [OF assms] by (rule for_range_Suc)

lemma sample_upto_total:
  assumes sp: "shape_preserving model" and sh: "shape x0 = b # sh" and st: "- 1 \<le> steps"
  shows "\<exists>st. sample_upto model rng x0 steps eta k = Inr st
     \<and> shape (cur_x st) = shape x0 \<and> length (elems (cur_x st)) = length (elems x0)
     \<and> length (calls st) = k
     \<and> draws st = (if eta \<noteq> 0 then min k (nat (steps - 1)) else 0)"
proof (induction k)
  case 0
  show ?case by (simp add: sample_upto_0 [OF sh st] init_state_def)
next
  case (Suc k)
  then obtain s where s: "sample_upto model rng x0 steps eta k = Inr s"
    "shape (cur_x s) = shape x0" "length (elems (cur_x s)) = length (elems x0)"
    "length (calls s) = k" "draws s = (if eta \<noteq> 0 then min k (nat (steps - 1)) else 0)"
    by blast
  let ?ts = "\<lparr>shape = [b], elems = replicate b (Some 1)\<rparr>"
  let ?t = "map (\<lambda>i. get_crash_schedule (1 - real i / real_of_int steps)) [0..<nat steps]"
  let ?al = "map (\<lambda>i. fst (get_alphas_sigmas (get_crash_schedule (1 - real i / real_of_int steps)))) [0..<nat steps]"
  let ?sg = "map (\<lambda>i. snd (get_alphas_sigmas (get_crash_schedule (1 - real i / real_of_int steps)))) [0..<nat steps]"
  from sample_step_ok [OF sp, of s ?al k ?ts ?t ?sg rng eta steps]
  obtain pred x' where step: "sample_step model rng eta steps ?ts ?t ?al ?sg k s =
       Inr \<lparr>cur_x = x', cur_pred = Some pred,
            draws = (if int k < steps - 1 \<and> eta \<noteq> 0 then Suc (draws s) else draws s),
            calls = calls s @ [(cur_x s, scale ?ts (Some (?t ! k)))]\<rparr>"
    and x': "shape x' = shape (cur_x s)" "length (elems x') = length (elems (cur_x s))"
    by blast
  have "(if int k < steps - 1 \<and> eta \<noteq> 0 then Suc (draws s) else draws s)
        = (if eta \<noteq> 0 then min (Suc k) (nat (steps - 1)) else 0)"
    using s(5) by (auto simp: min_def)
  with step x' s show ?case
    by (simp add: sample_upto_Suc [OF sh st])
qed


lemma scale_ones:
  "scale \<lparr>shape = [b], elems = replicate b (Some 1)\<rparr> (Some c)
   = \<lparr>shape = [b], elems = replicate b (Some c)\<rparr>"
  by (simp add: scale_def)

subsection \<open>Divisors and radicands of an iteration\<close>

text \<open>
  In \<^typ>\<open>real\<close>, division by zero has a value that is not the program's. Inside
  the loop it does not occur: whenever iteration \<open>i\<close> has a next step, \<open>sigmas[i]\<close>
  and \<open>alphas[i+1]\<close> are positive. The radicands of the two roots of \<open>ddim_sigma\<close>
  are not negative there, so \<open>ddim_sigma\<close> is a real; the radicand of
  \<open>adjusted_sigma\<close> is not negative when \<open>\<bar>eta\<bar> \<le> 1\<close>, and for a larger \<open>eta\<close> it
  can be negative and \<open>adjusted_sigma\<close> NaN.
\<close>

lemma ddim_radicands:
  fixes p q eta :: real
  assumes q: "0 < q" and qp: "q < p" and p: "p \<le> 1"
  defines "sg \<equiv> p\<^sup>2" and "sg' \<equiv> q\<^sup>2"
  defines "al \<equiv> sqrt (1 - sg\<^sup>2)" and "al' \<equiv> sqrt (1 - sg'\<^sup>2)"
  shows "0 < sg" "0 < al'" "al\<^sup>2 \<le> al'\<^sup>2"
    "\<bar>eta\<bar> \<le> 1 \<Longrightarrow> (eta * sqrt (sg'\<^sup>2 / sg\<^sup>2) * sqrt (1 - al\<^sup>2 / al'\<^sup>2))\<^sup>2 \<le> sg'\<^sup>2"
proof -
  from q qp have p0: "0 < p" by linarith
  then show sg: "0 < sg" by (simp add: sg_def)
  from q have sg'0: "0 < sg'" by (simp add: sg'_def)
  from p0 p have "sg \<le> 1" unfolding sg_def by (simp add: power_le_one)
  with sg have sg2: "sg\<^sup>2 \<le> 1" by (simp add: power_le_one)
  from q qp p have "q < 1" by linarith
  with q have "sg' < 1" unfolding sg'_def by (simp add: abs_square_less_1)
  with sg'0 have sg'2: "sg'\<^sup>2 < 1" by (simp add: abs_square_less_1)
  from q qp have "sg' < sg" unfolding sg_def sg'_def by (intro power_strict_mono) auto
  with sg'0 have lt2: "sg'\<^sup>2 < sg\<^sup>2" by (intro power_strict_mono) auto
  from sg'2 show al'0: "0 < al'" by (simp add: al'_def)
  from sg2 have a2: "al\<^sup>2 = 1 - sg\<^sup>2" by (simp add: al_def)
  from sg'2 have b2: "al'\<^sup>2 = 1 - sg'\<^sup>2" by (simp add: al'_def)
  from a2 b2 lt2 show le: "al\<^sup>2 \<le> al'\<^sup>2" by simp
  assume eta: "\<bar>eta\<bar> \<le> 1"
  then have eta2: "eta\<^sup>2 \<le> 1" by (simp add: abs_square_le_1)
  from al'0 have b2pos: "0 < al'\<^sup>2" by simp
  have a2nn: "0 \<le> al\<^sup>2" by simp
  from b2 have b2le: "al'\<^sup>2 \<le> 1" by simp
  from le b2pos have r1: "0 \<le> 1 - al\<^sup>2 / al'\<^sup>2" by simp
  have "al\<^sup>2 * al'\<^sup>2 \<le> al\<^sup>2 * 1" using a2nn b2le by (intro mult_left_mono)
  with b2pos have "al\<^sup>2 \<le> al\<^sup>2 / al'\<^sup>2" by (simp add: pos_le_divide_eq)
  with a2 have r2: "1 - al\<^sup>2 / al'\<^sup>2 \<le> sg\<^sup>2" by linarith
  from sg have sgpos: "0 < sg\<^sup>2" by simp
  have r0: "0 \<le> sg'\<^sup>2 / sg\<^sup>2" by simp
  have "(eta * sqrt (sg'\<^sup>2 / sg\<^sup>2) * sqrt (1 - al\<^sup>2 / al'\<^sup>2))\<^sup>2
        = eta\<^sup>2 * ((sg'\<^sup>2 / sg\<^sup>2) * (1 - al\<^sup>2 / al'\<^sup>2))"
    using r0 r1 by (simp add: power_mult_distrib)
  also have "\<dots> \<le> 1 * ((sg'\<^sup>2 / sg\<^sup>2) * (1 - al\<^sup>2 / al'\<^sup>2))"
    using eta2 r0 r1 by (intro mult_right_mono mult_nonneg_nonneg)
  also have "\<dots> \<le> 1 * ((sg'\<^sup>2 / sg\<^sup>2) * sg\<^sup>2)"
    using r2 r0 by (intro mult_left_mono) auto
  also have "\<dots> = sg'\<^sup>2" using sgpos by simp
  finally show "(eta * sqrt (sg'\<^sup>2 / sg\<^sup>2) * sqrt (1 - al\<^sup>2 / al'\<^sup>2))\<^sup>2 \<le> sg'\<^sup>2" .
qed


lemma sample_step_well_defined:
  fixes steps :: int and i :: nat and eta :: real
  defines "T \<equiv> \<lambda>j. get_crash_schedule (1 - real j / real_of_int steps)"
  defines "A \<equiv> \<lambda>j. fst (get_alphas_sigmas (T j))"
  defines "S \<equiv> \<lambda>j. snd (get_alphas_sigmas (T j))"
  assumes i: "int i < steps - 1"
  shows "0 < S i" "0 < A (i + 1)" "0 \<le> 1 - (A i)\<^sup>2 / (A (i + 1))\<^sup>2"
    "\<bar>eta\<bar> \<le> 1 \<Longrightarrow>
       0 \<le> (S (i + 1))\<^sup>2
          - (eta * sqrt ((S (i + 1))\<^sup>2 / (S i)\<^sup>2) * sqrt (1 - (A i)\<^sup>2 / (A (i + 1))\<^sup>2))\<^sup>2"
proof -
  let ?u = "1 - real i / real_of_int steps"
  let ?u' = "1 - real (i + 1) / real_of_int steps"
  from i have st: "0 < real_of_int steps" by simp
  from i have "real (i + 1) < real_of_int steps" by linarith
  with st have u'0: "0 < ?u'" by simp
  from st have u1: "?u \<le> 1" by simp
  have "real i < real (i + 1)" by simp
  with st have "real i / real_of_int steps < real (i + 1) / real_of_int steps"
    by (intro divide_strict_right_mono)
  then have uu: "?u' < ?u" by linarith
  from u'0 uu have u0: "0 \<le> ?u" by linarith
  from uu u1 have u'1: "?u' \<le> 1" by linarith
  from u'0 have u'0le: "0 \<le> ?u'" by linarith
  have lt: "?u' * pi / 2 < ?u * pi / 2" using uu pi_gt_zero by simp
  have q: "0 < sin (?u' * pi / 2)"
  proof (rule sin_gt_zero)
    from u'0 show "0 < ?u' * pi / 2" using pi_gt_zero by simp
    from quarter_turn_bounds(2) [OF u'0le u'1] show "?u' * pi / 2 < pi"
      using pi_gt_zero by linarith
  qed
  have qp: "sin (?u' * pi / 2) < sin (?u * pi / 2)"
    using quarter_turn_bounds(3) [OF u'0le u'1] lt quarter_turn_bounds(2) [OF u0 u1]
    by (rule sin_monotone_2pi)
  have p: "sin (?u * pi / 2) \<le> 1" by simp
  have Si: "S i = (sin (?u * pi / 2))\<^sup>2" and Si': "S (i + 1) = (sin (?u' * pi / 2))\<^sup>2"
    unfolding S_def T_def by (rule sigma_crash_eq)+
  have Ai: "A i = sqrt (1 - ((sin (?u * pi / 2))\<^sup>2)\<^sup>2)"
    and Ai': "A (i + 1) = sqrt (1 - ((sin (?u' * pi / 2))\<^sup>2)\<^sup>2)"
    unfolding A_def T_def by (rule alpha_crash_eq)+
  note r = ddim_radicands [OF q qp p, folded Si Si' Ai Ai']
  from r(1) show "0 < S i" .
  from r(2) show a': "0 < A (i + 1)" .
  from a' have "0 < (A (i + 1))\<^sup>2" by simp
  with r(3) show "0 \<le> 1 - (A i)\<^sup>2 / (A (i + 1))\<^sup>2" by simp
  assume "\<bar>eta\<bar> \<le> 1"
  from r(4) [OF this]
  show "0 \<le> (S (i + 1))\<^sup>2
          - (eta * sqrt ((S (i + 1))\<^sup>2 / (S i)\<^sup>2) * sqrt (1 - (A i)\<^sup>2 / (A (i + 1))\<^sup>2))\<^sup>2"
    by simp
qed

lemma sample_iteration:
  fixes steps :: int and i :: nat and eta :: real
  defines "T \<equiv> \<lambda>j. get_crash_schedule (1 - real j / real_of_int steps)"
  defines "A \<equiv> \<lambda>j. fst (get_alphas_sigmas (T j))"
  defines "S \<equiv> \<lambda>j. snd (get_alphas_sigmas (T j))"
  defines "D \<equiv> eta * sqrt ((S (i + 1))\<^sup>2 / (S i)\<^sup>2) * sqrt (1 - (A i)\<^sup>2 / (A (i + 1))\<^sup>2)"
  assumes sp: "shape_preserving model" and sh: "shape x0 = b # sh" and i: "i < nat steps"
  shows "\<exists>st st' pred eps.
       sample_upto model rng x0 steps eta i = Inr st
     \<and> sample_upto model rng x0 steps eta (Suc i) = Inr st'
     \<and> shape (cur_x st) = shape x0 \<and> length (elems (cur_x st)) = length (elems x0)
     \<and> length (calls st) = i
     \<and> calls st' = calls st @ [(cur_x st, \<lparr>shape = [b], elems = replicate b (Some (T i))\<rparr>)]
     \<and> draws st = (if eta \<noteq> 0 then i else 0)
     \<and> draws st' = (if int i < steps - 1 \<and> eta \<noteq> 0 then Suc (draws st) else draws st)
     \<and> tsub (scale (cur_x st) (Some (A i)))
          (scale (model (cur_x st) \<lparr>shape = [b], elems = replicate b (Some (T i))\<rparr>) (Some (S i)))
          = Inr pred
     \<and> tadd (scale (cur_x st) (Some (S i)))
          (scale (model (cur_x st) \<lparr>shape = [b], elems = replicate b (Some (T i))\<rparr>) (Some (A i)))
          = Inr eps
     \<and> cur_pred st' = Some pred
     \<and> (int i < steps - 1 \<longrightarrow>
           (\<exists>x1. tadd (scale pred (Some (A (i + 1))))
                   (scale eps (torch_sqrt (Some ((S (i + 1))\<^sup>2 - D\<^sup>2)))) = Inr x1
              \<and> (eta \<noteq> 0 \<longrightarrow>
                    tadd x1 (scale (randn_like rng (draws st) x1) (Some D)) = Inr (cur_x st'))
              \<and> (eta = 0 \<longrightarrow> cur_x st' = x1)))
     \<and> (\<not> int i < steps - 1 \<longrightarrow> cur_x st' = cur_x st)"
proof -
  from i have st: "- 1 \<le> steps" by simp
  let ?ts = "\<lparr>shape = [b], elems = replicate b (Some 1)\<rparr>"
  let ?t = "map T [0..<nat steps]"
  let ?al = "map A [0..<nat steps]"
  let ?sg = "map S [0..<nat steps]"
  let ?dd = "nan_lift (\<lambda>p q. p * q)
               (nan_lift (\<lambda>p q. p * q) (Some eta)
                  (torch_sqrt (Some ((?sg ! (i + 1))\<^sup>2 / (?sg ! i)\<^sup>2))))
               (torch_sqrt (Some (1 - (?al ! i)\<^sup>2 / (?al ! (i + 1))\<^sup>2)))"
  let ?adj = "torch_sqrt (nan_lift (\<lambda>p q. p - q) (Some ((?sg ! (i + 1))\<^sup>2))
                (map_option (\<lambda>d. d\<^sup>2) ?dd))"
  from sample_upto_total [OF sp sh st, of rng eta i]
  obtain s where s: "sample_upto model rng x0 steps eta i = Inr s"
    "shape (cur_x s) = shape x0" "length (elems (cur_x s)) = length (elems x0)"
    "length (calls s) = i" "draws s = (if eta \<noteq> 0 then min i (nat (steps - 1)) else 0)"
    by blast
  from i have "min i (nat (steps - 1)) = i" by simp
  with s(5) have dr: "draws s = (if eta \<noteq> 0 then i else 0)" by simp
  have ti: "?t ! i = T i" "?al ! i = A i" "?sg ! i = S i" using i by simp_all
  have ti1: "int i < steps - 1 \<Longrightarrow> ?al ! (i + 1) = A (i + 1)"
       "int i < steps - 1 \<Longrightarrow> ?sg ! (i + 1) = S (i + 1)"
    by simp_all
  have dd: "nan_lift (\<lambda>p q. p * q)
               (nan_lift (\<lambda>p q. p * q) (Some eta)
                  (torch_sqrt (Some ((S (i + 1))\<^sup>2 / (S i)\<^sup>2))))
               (torch_sqrt (Some (1 - (A i)\<^sup>2 / (A (i + 1))\<^sup>2))) = Some D"
    if lt: "int i < steps - 1"
  proof -
    have r1: "0 \<le> (S (i + 1))\<^sup>2 / (S i)\<^sup>2" by simp
    have r2: "0 \<le> 1 - (A i)\<^sup>2 / (A (i + 1))\<^sup>2"
      unfolding A_def T_def by (rule sample_step_well_defined(3) [OF lt])
    show ?thesis
      unfolding D_def
      by (simp only: torch_sqrt_nonneg [OF r1] torch_sqrt_nonneg [OF r2] nan_lift_Some)
  qed
  have unf: "sample_upto model rng x0 steps eta (Suc i) =
      sample_step model rng eta steps ?ts ?t ?al ?sg i s"
    using sample_upto_Suc [OF sh st, of model rng eta i] s(1)
    by (simp add: T_def A_def S_def)
  from sample_step_ok [OF sp, of s ?al i ?ts ?t ?sg rng eta steps]
  obtain pred eps x' where
      p: "tsub (scale (cur_x s) (Some (?al ! i)))
            (scale (model (cur_x s) (scale ?ts (Some (?t ! i)))) (Some (?sg ! i))) = Inr pred"
  and e: "tadd (scale (cur_x s) (Some (?sg ! i)))
            (scale (model (cur_x s) (scale ?ts (Some (?t ! i)))) (Some (?al ! i))) = Inr eps"
  and r: "sample_step model rng eta steps ?ts ?t ?al ?sg i s =
       Inr \<lparr>cur_x = x', cur_pred = Some pred,
            draws = (if int i < steps - 1 \<and> eta \<noteq> 0 then Suc (draws s) else draws s),
            calls = calls s @ [(cur_x s, scale ?ts (Some (?t ! i)))]\<rparr>"
  and u: "(if int i < steps - 1 then
         (\<exists>x1. tadd (scale pred (Some (?al ! (i + 1)))) (scale eps ?adj) = Inr x1
            \<and> (if eta \<noteq> 0
                then tadd x1 (scale (randn_like rng (draws s) x1) ?dd) = Inr x'
                else x' = x1))
       else x' = cur_x s)"
    by blast
  let ?s' = "\<lparr>cur_x = x', cur_pred = Some pred,
            draws = (if int i < steps - 1 \<and> eta \<noteq> 0 then Suc (draws s) else draws s),
            calls = calls s @ [(cur_x s, scale ?ts (Some (?t ! i)))]\<rparr>"
  have u': "(if int i < steps - 1 then
           (\<exists>x1. tadd (scale pred (Some (A (i + 1))))
                   (scale eps (torch_sqrt (Some ((S (i + 1))\<^sup>2 - D\<^sup>2)))) = Inr x1
              \<and> (if eta \<noteq> 0
                  then tadd x1 (scale (randn_like rng (draws s) x1) (Some D)) = Inr x'
                  else x' = x1))
         else x' = cur_x s)"
  proof (cases "int i < steps - 1")
    case True
    from u True have "\<exists>x1. tadd (scale pred (Some (?al ! (i + 1)))) (scale eps ?adj) = Inr x1
            \<and> (if eta \<noteq> 0
                then tadd x1 (scale (randn_like rng (draws s) x1) ?dd) = Inr x'
                else x' = x1)"
      by (simp only: if_True)
    then have "\<exists>x1. tadd (scale pred (Some (A (i + 1))))
              (scale eps (torch_sqrt (nan_lift (\<lambda>p q. p - q) (Some ((S (i + 1))\<^sup>2))
                 (map_option (\<lambda>d. d\<^sup>2)
                    (nan_lift (\<lambda>p q. p * q)
                       (nan_lift (\<lambda>p q. p * q) (Some eta)
                          (torch_sqrt (Some ((S (i + 1))\<^sup>2 / (S i)\<^sup>2))))
                       (torch_sqrt (Some (1 - (A i)\<^sup>2 / (A (i + 1))\<^sup>2)))))))) = Inr x1
            \<and> (if eta \<noteq> 0
                then tadd x1 (scale (randn_like rng (draws s) x1)
                       (nan_lift (\<lambda>p q. p * q)
                          (nan_lift (\<lambda>p q. p * q) (Some eta)
                             (torch_sqrt (Some ((S (i + 1))\<^sup>2 / (S i)\<^sup>2))))
                          (torch_sqrt (Some (1 - (A i)\<^sup>2 / (A (i + 1))\<^sup>2))))) = Inr x'
                else x' = x1)"
      by (simp only: ti ti1 [OF True])
    then have "\<exists>x1. tadd (scale pred (Some (A (i + 1))))
              (scale eps (torch_sqrt (nan_lift (\<lambda>p q. p - q) (Some ((S (i + 1))\<^sup>2))
                 (map_option (\<lambda>d. d\<^sup>2) (Some D))))) = Inr x1
            \<and> (if eta \<noteq> 0
                then tadd x1 (scale (randn_like rng (draws s) x1) (Some D)) = Inr x'
                else x' = x1)"
      by (simp only: dd [OF True])
    then have "\<exists>x1. tadd (scale pred (Some (A (i + 1))))
                   (scale eps (torch_sqrt (Some ((S (i + 1))\<^sup>2 - D\<^sup>2)))) = Inr x1
              \<and> (if eta \<noteq> 0
                  then tadd x1 (scale (randn_like rng (draws s) x1) (Some D)) = Inr x'
                  else x' = x1)"
      by (simp only: option.map nan_lift_Some)
    with True show ?thesis by (simp only: if_True)
  next
    case False
    with u show ?thesis by (simp only: if_False)
  qed
  show ?thesis
  proof (intro exI conjI)
    show "sample_upto model rng x0 steps eta i = Inr s" by (rule s(1))
    show "sample_upto model rng x0 steps eta (Suc i) = Inr ?s'" using unf r by simp
    show "shape (cur_x s) = shape x0" by (rule s(2))
    show "length (elems (cur_x s)) = length (elems x0)" by (rule s(3))
    show "length (calls s) = i" by (rule s(4))
    show "calls ?s' = calls s @ [(cur_x s, \<lparr>shape = [b], elems = replicate b (Some (T i))\<rparr>)]"
      by (simp add: ti scale_ones)
    show "draws s = (if eta \<noteq> 0 then i else 0)" by (rule dr)
    show "draws ?s' = (if int i < steps - 1 \<and> eta \<noteq> 0 then Suc (draws s) else draws s)" by simp
    show "tsub (scale (cur_x s) (Some (A i)))
          (scale (model (cur_x s) \<lparr>shape = [b], elems = replicate b (Some (T i))\<rparr>) (Some (S i)))
          = Inr pred"
      using p by (simp only: ti scale_ones)
    show "tadd (scale (cur_x s) (Some (S i)))
          (scale (model (cur_x s) \<lparr>shape = [b], elems = replicate b (Some (T i))\<rparr>) (Some (A i)))
          = Inr eps"
      using e by (simp only: ti scale_ones)
    show "cur_pred ?s' = Some pred" by simp
    show "int i < steps - 1 \<longrightarrow>
           (\<exists>x1. tadd (scale pred (Some (A (i + 1))))
                   (scale eps (torch_sqrt (Some ((S (i + 1))\<^sup>2 - D\<^sup>2)))) = Inr x1
              \<and> (eta \<noteq> 0 \<longrightarrow>
                    tadd x1 (scale (randn_like rng (draws s) x1) (Some D)) = Inr (cur_x ?s'))
              \<and> (eta = 0 \<longrightarrow> cur_x ?s' = x1))"
      using u' unfolding state.select_convs by (cases "eta = 0") auto
    show "\<not> int i < steps - 1 \<longrightarrow> cur_x ?s' = cur_x s"
      using u' unfolding state.select_convs by auto
  qed
qed

lemma sample_upto_calls:
  fixes steps :: int
  assumes sp: "shape_preserving model" and sh: "shape x0 = b # sh"
  shows "k \<le> nat steps \<Longrightarrow> sample_upto model rng x0 steps eta k = Inr st \<Longrightarrow> i < k \<Longrightarrow>
     \<exists>s. sample_upto model rng x0 steps eta i = Inr s
        \<and> calls st ! i = (cur_x s, \<lparr>shape = [b], elems = replicate b
                             (Some (get_crash_schedule (1 - real i / real_of_int steps)))\<rparr>)"
proof (induction k arbitrary: st i)
  case 0
  then show ?case by simp
next
  case (Suc k)
  from Suc.prems(1) have k: "k < nat steps" by simp
  from sample_iteration [OF sp sh k, of rng eta]
  obtain s s' where s: "sample_upto model rng x0 steps eta k = Inr s"
    and s': "sample_upto model rng x0 steps eta (Suc k) = Inr s'"
    and len: "length (calls s) = k"
    and app: "calls s' = calls s @ [(cur_x s, \<lparr>shape = [b], elems = replicate b
                             (Some (get_crash_schedule (1 - real k / real_of_int steps)))\<rparr>)]"
    by blast
  from s' Suc.prems(2) have eq: "st = s'" by simp
  show ?case
  proof (cases "i = k")
    case True
    with s app len eq show ?thesis by (simp add: nth_append)
  next
    case False
    with Suc.prems(3) have ik: "i < k" by simp
    from k have "k \<le> nat steps" by simp
    from Suc.IH [OF this s ik] obtain u where
      u: "sample_upto model rng x0 steps eta i = Inr u"
         "calls s ! i = (cur_x u, \<lparr>shape = [b], elems = replicate b
                             (Some (get_crash_schedule (1 - real i / real_of_int steps)))\<rparr>)"
      by blast
    with app len ik eq show ?thesis by (simp add: nth_append)
  qed
qed

lemma sample_run_ok:
  fixes steps :: int
  assumes sp: "shape_preserving model" and sh: "shape x0 = b # sh" and st: "1 \<le> steps"
  shows "\<exists>s s' pred.
       sample_upto model rng x0 steps eta (nat steps - 1) = Inr s
     \<and> sample_upto model rng x0 steps eta (nat steps) = Inr s'
     \<and> sample_run model rng x0 steps eta = Inr (pred, s')
     \<and> sample model rng x0 steps eta = Inr pred
     \<and> length (calls s') = nat steps
     \<and> cur_x s' = cur_x s \<and> draws s' = draws s
     \<and> draws s' = (if eta \<noteq> 0 then nat steps - 1 else 0)
     \<and> tsub (scale (cur_x s)
               (Some (fst (get_alphas_sigmas (get_crash_schedule
                  (1 - real (nat steps - 1) / real_of_int steps))))))
            (scale (model (cur_x s) \<lparr>shape = [b], elems = replicate b
                  (Some (get_crash_schedule (1 - real (nat steps - 1) / real_of_int steps)))\<rparr>)
               (Some (snd (get_alphas_sigmas (get_crash_schedule
                  (1 - real (nat steps - 1) / real_of_int steps)))))) = Inr pred"
proof -
  from st have i: "nat steps - 1 < nat steps" and S: "Suc (nat steps - 1) = nat steps"
    and last: "\<not> int (nat steps - 1) < steps - 1" by auto
  from sample_iteration [OF sp sh i, of rng eta]
  obtain s s' pred where
       a: "sample_upto model rng x0 steps eta (nat steps - 1) = Inr s"
   and b: "sample_upto model rng x0 steps eta (Suc (nat steps - 1)) = Inr s'"
   and c: "length (calls s) = nat steps - 1"
   and d: "calls s' = calls s @ [(cur_x s, \<lparr>shape = [b], elems = replicate b
                  (Some (get_crash_schedule (1 - real (nat steps - 1) / real_of_int steps)))\<rparr>)]"
   and e: "draws s = (if eta \<noteq> 0 then nat steps - 1 else 0)"
   and f: "draws s' = (if int (nat steps - 1) < steps - 1 \<and> eta \<noteq> 0 then Suc (draws s) else draws s)"
   and g: "tsub (scale (cur_x s)
               (Some (fst (get_alphas_sigmas (get_crash_schedule
                  (1 - real (nat steps - 1) / real_of_int steps))))))
            (scale (model (cur_x s) \<lparr>shape = [b], elems = replicate b
                  (Some (get_crash_schedule (1 - real (nat steps - 1) / real_of_int steps)))\<rparr>)
               (Some (snd (get_alphas_sigmas (get_crash_schedule
                  (1 - real (nat steps - 1) / real_of_int steps)))))) = Inr pred"
   and h: "cur_pred s' = Some pred"
   and x: "\<not> int (nat steps - 1) < steps - 1 \<longrightarrow> cur_x s' = cur_x s"
    by blast
  from b S have b': "sample_upto model rng x0 steps eta (nat steps) = Inr s'" by simp
  from f last have f': "draws s' = draws s" by simp
  from c d st have len: "length (calls s') = nat steps" by simp
  from b' h have run: "sample_run model rng x0 steps eta = Inr (pred, s')"
    by (simp add: sample_run_def)
  then have smp: "sample model rng x0 steps eta = Inr pred" by (simp add: sample_def)
  from x last have x': "cur_x s' = cur_x s" by simp
  from a b' run smp len x' f' e g show ?thesis by (intro exI conjI) simp_all
qed


lemma crash_one: "get_crash_schedule 1 = 1"
  by (simp add: get_crash_schedule_arcsin)

lemma alphas_sigmas_one: "get_alphas_sigmas 1 = (0, 1)"
  by (simp add: get_alphas_sigmas_def)

section \<open>The claims about the sampler\<close>

text \<open>
  C3. For every \<open>steps \<ge> 1\<close> and every \<open>eta\<close>, \<open>sample\<close> calls the denoiser exactly
  \<open>steps\<close> times and returns the \<open>pred\<close> of the last iteration, computed from the
  \<open>x\<close> that the last iteration started with; and \<open>sample\<close> with \<open>steps = 1\<close> and
  \<open>eta = 0\<close> makes the one call \<open>model(x, crash_schedule(1))\<close> and returns
  \<open>x\<sqdot>alpha\<^sub>0 - v\<sqdot>sigma\<^sub>0\<close> for \<open>(alpha\<^sub>0, sigma\<^sub>0) = get_alphas_sigmas (crash_schedule 1)\<close>.
\<close>

theorem sample_invocations_and_result:
  fixes steps :: int
  assumes sp: "shape_preserving model" and sh: "shape x0 = b # sh" and st: "1 \<le> steps"
  shows "(\<exists>s s' pred.
        sample_upto model rng x0 steps eta (nat steps - 1) = Inr s
      \<and> sample_run model rng x0 steps eta = Inr (pred, s')
      \<and> sample model rng x0 steps eta = Inr pred
      \<and> length (calls s') = nat steps
      \<and> tsub (scale (cur_x s)
               (Some (fst (get_alphas_sigmas (get_crash_schedule
                  (1 - real (nat steps - 1) / real_of_int steps))))))
            (scale (model (cur_x s) \<lparr>shape = [b], elems = replicate b
                  (Some (get_crash_schedule (1 - real (nat steps - 1) / real_of_int steps)))\<rparr>)
               (Some (snd (get_alphas_sigmas (get_crash_schedule
                  (1 - real (nat steps - 1) / real_of_int steps)))))) = Inr pred)
   \<and> (\<exists>s' pred.
        sample_run model rng x0 1 0 = Inr (pred, s')
      \<and> sample model rng x0 1 0 = Inr pred
      \<and> calls s' = [(x0, \<lparr>shape = [b], elems = replicate b (Some (get_crash_schedule 1))\<rparr>)]
      \<and> tsub (scale x0 (Some (fst (get_alphas_sigmas (get_crash_schedule 1)))))
            (scale (model x0 \<lparr>shape = [b], elems = replicate b (Some (get_crash_schedule 1))\<rparr>)
               (Some (snd (get_alphas_sigmas (get_crash_schedule 1))))) = Inr pred)"
proof (rule conjI)
  from sample_run_ok [OF sp sh st, of rng eta]
  show "\<exists>s s' pred.
        sample_upto model rng x0 steps eta (nat steps - 1) = Inr s
      \<and> sample_run model rng x0 steps eta = Inr (pred, s')
      \<and> sample model rng x0 steps eta = Inr pred
      \<and> length (calls s') = nat steps
      \<and> tsub (scale (cur_x s)
               (Some (fst (get_alphas_sigmas (get_crash_schedule
                  (1 - real (nat steps - 1) / real_of_int steps))))))
            (scale (model (cur_x s) \<lparr>shape = [b], elems = replicate b
                  (Some (get_crash_schedule (1 - real (nat steps - 1) / real_of_int steps)))\<rparr>)
               (Some (snd (get_alphas_sigmas (get_crash_schedule
                  (1 - real (nat steps - 1) / real_of_int steps)))))) = Inr pred"
    by blast
next
  have i: "(0::nat) < nat (1::int)" by simp
  from sample_iteration [OF sp sh i, of rng 0]
  obtain s s' pred where
       a: "sample_upto model rng x0 1 0 0 = Inr s"
   and b: "sample_upto model rng x0 1 0 (Suc 0) = Inr s'"
   and d: "calls s' = calls s @ [(cur_x s, \<lparr>shape = [b], elems = replicate b
                  (Some (get_crash_schedule (1 - real (0::nat) / real_of_int 1)))\<rparr>)]"
   and g: "tsub (scale (cur_x s)
               (Some (fst (get_alphas_sigmas (get_crash_schedule (1 - real (0::nat) / real_of_int 1))))))
            (scale (model (cur_x s) \<lparr>shape = [b], elems = replicate b
                  (Some (get_crash_schedule (1 - real (0::nat) / real_of_int 1)))\<rparr>)
               (Some (snd (get_alphas_sigmas (get_crash_schedule (1 - real (0::nat) / real_of_int 1)))))) = Inr pred"
   and h: "cur_pred s' = Some pred"
    by blast
  have "sample_upto model rng x0 1 0 0 = Inr (init_state x0)"
    by (rule sample_upto_0 [OF sh]) simp
  with a have s: "s = init_state x0" by simp
  from b h have run: "sample_run model rng x0 1 0 = Inr (pred, s')"
    by (simp add: sample_run_def)
  then have smp: "sample model rng x0 1 0 = Inr pred" by (simp add: sample_def)
  from d s have cl: "calls s' = [(x0, \<lparr>shape = [b], elems = replicate b (Some (get_crash_schedule 1))\<rparr>)]"
    by (simp add: init_state_def)
  from g s have pr: "tsub (scale x0 (Some (fst (get_alphas_sigmas (get_crash_schedule 1)))))
            (scale (model x0 \<lparr>shape = [b], elems = replicate b (Some (get_crash_schedule 1))\<rparr>)
               (Some (snd (get_alphas_sigmas (get_crash_schedule 1))))) = Inr pred"
    by (simp add: init_state_def)
  from run smp cl pr show "\<exists>s' pred.
        sample_run model rng x0 1 0 = Inr (pred, s')
      \<and> sample model rng x0 1 0 = Inr pred
      \<and> calls s' = [(x0, \<lparr>shape = [b], elems = replicate b (Some (get_crash_schedule 1))\<rparr>)]
      \<and> tsub (scale x0 (Some (fst (get_alphas_sigmas (get_crash_schedule 1)))))
            (scale (model x0 \<lparr>shape = [b], elems = replicate b (Some (get_crash_schedule 1))\<rparr>)
               (Some (snd (get_alphas_sigmas (get_crash_schedule 1))))) = Inr pred"
    by blast
qed

theorem sample_invocations_and_result_witness:
  "shape_preserving (\<lambda>a ts. a) \<and> shape \<lparr>shape = [1], elems = [Some 2]\<rparr> = 1 # [] \<and> (1::int) \<le> 1
   \<and> (\<exists>s'. sample_run (\<lambda>a ts. a) (\<lambda>k j. 0) \<lparr>shape = [1], elems = [Some 2]\<rparr> 1 0
              = Inr (\<lparr>shape = [1], elems = [Some (- 2)]\<rparr>, s')
          \<and> length (calls s') = 1)
   \<and> sample (\<lambda>a ts. a) (\<lambda>k j. 0) \<lparr>shape = [1], elems = [Some 2]\<rparr> 1 0
       = Inr \<lparr>shape = [1], elems = [Some (- 2)]\<rparr>"
proof -
  have sp: "shape_preserving (\<lambda>a ts. a)" by (simp add: shape_preserving_def)
  have sh: "shape \<lparr>shape = [1], elems = [Some 2]\<rparr> = 1 # []" by simp
  have st: "(1::int) \<le> 1" by simp
  from sample_invocations_and_result [OF sp sh st, of "\<lambda>k j. 0" 0]
  obtain s' pred where
       run: "sample_run (\<lambda>a ts. a) (\<lambda>k j. 0) \<lparr>shape = [1], elems = [Some 2]\<rparr> 1 0 = Inr (pred, s')"
   and smp: "sample (\<lambda>a ts. a) (\<lambda>k j. 0) \<lparr>shape = [1], elems = [Some 2]\<rparr> 1 0 = Inr pred"
   and cl: "calls s' = [(\<lparr>shape = [1], elems = [Some 2]\<rparr>,
                        \<lparr>shape = [1], elems = replicate 1 (Some (get_crash_schedule 1))\<rparr>)]"
   and pr: "tsub (scale \<lparr>shape = [1], elems = [Some 2]\<rparr> (Some (fst (get_alphas_sigmas (get_crash_schedule 1)))))
            (scale \<lparr>shape = [1], elems = [Some 2]\<rparr> (Some (snd (get_alphas_sigmas (get_crash_schedule 1)))))
            = Inr pred"
    by blast
  from pr have "pred = \<lparr>shape = [1], elems = [Some (- 2)]\<rparr>"
    by (simp add: crash_one alphas_sigmas_one tsub_def pointwise_def scale_def)
  with run smp cl sp sh st show ?thesis by simp
qed


lemma sample_schedule_length:
  "sample_schedule steps = Inr t \<Longrightarrow> length t = nat steps"
proof (cases "- 1 \<le> steps")
  case True
  assume "sample_schedule steps = Inr t"
  with sample_schedule_closed [OF True] show ?thesis by auto
next
  case False
  assume "sample_schedule steps = Inr t"
  with False show ?thesis by (simp add: sample_schedule_neg)
qed

text \<open>
  C2. \<open>sample\<close> builds exactly \<open>steps\<close> timesteps, the warped values of
  \<open>t\<^sub>i = 1 - i/steps\<close> for \<open>i = 0, \<dots>, steps - 1\<close>, each \<open>t\<^sub>i\<close> in \<open>(0, 1]\<close>; the denoiser
  is called at step \<open>i\<close> with the current \<open>x\<close> and the warped \<open>t\<^sub>i\<close> repeated for every
  example of the batch, and \<open>pred\<close> is computed with the pair that
  \<open>get_alphas_sigmas\<close> gives for the warped \<open>t\<^sub>i\<close>.
\<close>

theorem sample_timesteps:
  fixes steps :: int and i :: nat
  defines "T \<equiv> \<lambda>j. get_crash_schedule (1 - real j / real_of_int steps)"
  assumes sp: "shape_preserving model" and sh: "shape x0 = b # sh" and i: "i < nat steps"
  shows "sample_schedule steps = Inr (map T [0..<nat steps])
     \<and> length (map T [0..<nat steps]) = nat steps
     \<and> 0 < 1 - real i / real_of_int steps \<and> 1 - real i / real_of_int steps \<le> 1
     \<and> (\<exists>s s' st pred p.
            sample_upto model rng x0 steps eta i = Inr s
          \<and> sample_upto model rng x0 steps eta (Suc i) = Inr s'
          \<and> sample_run model rng x0 steps eta = Inr (pred, st)
          \<and> calls st ! i = (cur_x s, \<lparr>shape = [b], elems = replicate b (Some (T i))\<rparr>)
          \<and> cur_pred s' = Some p
          \<and> tsub (scale (cur_x s) (Some (fst (get_alphas_sigmas (T i)))))
               (scale (model (cur_x s) \<lparr>shape = [b], elems = replicate b (Some (T i))\<rparr>)
                  (Some (snd (get_alphas_sigmas (T i))))) = Inr p)"
proof (intro conjI)
  from i have st: "1 \<le> steps" by simp
  then show "sample_schedule steps = Inr (map T [0..<nat steps])"
    unfolding T_def by (rule sample_schedule_pos)
  show "length (map T [0..<nat steps]) = nat steps" by simp
  from i have "real i < real_of_int steps" by linarith
  with st show "0 < 1 - real i / real_of_int steps" by simp
  from st show "1 - real i / real_of_int steps \<le> 1" by simp
  from sample_run_ok [OF sp sh st, of rng eta]
  obtain st' pred where
       up: "sample_upto model rng x0 steps eta (nat steps) = Inr st'"
   and run: "sample_run model rng x0 steps eta = Inr (pred, st')"
    by blast
  from sample_upto_calls [OF sp sh le_refl up i]
  obtain s where s: "sample_upto model rng x0 steps eta i = Inr s"
    and cl: "calls st' ! i = (cur_x s, \<lparr>shape = [b], elems = replicate b (Some (T i))\<rparr>)"
    unfolding T_def by blast
  from sample_iteration [OF sp sh i, of rng eta]
  obtain u s' p where
       u: "sample_upto model rng x0 steps eta i = Inr u"
   and s': "sample_upto model rng x0 steps eta (Suc i) = Inr s'"
   and pr: "tsub (scale (cur_x u) (Some (fst (get_alphas_sigmas (T i)))))
               (scale (model (cur_x u) \<lparr>shape = [b], elems = replicate b (Some (T i))\<rparr>)
                  (Some (snd (get_alphas_sigmas (T i))))) = Inr p"
   and cp: "cur_pred s' = Some p"
    unfolding T_def by blast
  from u s have "u = s" by simp
  with s s' run cl cp pr
  show "\<exists>s s' st pred p.
            sample_upto model rng x0 steps eta i = Inr s
          \<and> sample_upto model rng x0 steps eta (Suc i) = Inr s'
          \<and> sample_run model rng x0 steps eta = Inr (pred, st)
          \<and> calls st ! i = (cur_x s, \<lparr>shape = [b], elems = replicate b (Some (T i))\<rparr>)
          \<and> cur_pred s' = Some p
          \<and> tsub (scale (cur_x s) (Some (fst (get_alphas_sigmas (T i)))))
               (scale (model (cur_x s) \<lparr>shape = [b], elems = replicate b (Some (T i))\<rparr>)
                  (Some (snd (get_alphas_sigmas (T i))))) = Inr p"
    by blast
qed

lemma crash_half: "get_crash_schedule (1 / 2) = 1 / 3"
proof -
  have "(1::real) / 2 * pi / 2 = pi / 4" by simp
  then have "sin (1 / 2 * pi / 2) = sqrt 2 / 2" by (simp only: sin_45)
  moreover have "(sqrt 2 / 2)\<^sup>2 = (1::real) / 2" by (simp add: power_divide)
  ultimately have "(sin (1 / 2 * pi / 2))\<^sup>2 = 1 / 2" by (simp only:)
  then have "get_crash_schedule (1 / 2) = arcsin (1 / 2) / pi * 2"
    by (simp only: get_crash_schedule_arcsin)
  then show ?thesis by (simp only: arcsin_one_half) simp
qed

theorem sample_timesteps_witness:
  "shape_preserving (\<lambda>a ts. a) \<and> shape \<lparr>shape = [1], elems = [Some 2]\<rparr> = 1 # [] \<and> (1::nat) < nat 2
   \<and> sample_schedule 2 = Inr [1, 1 / 3]
   \<and> (\<exists>s st pred.
          sample_upto (\<lambda>a ts. a) (\<lambda>k j. 0) \<lparr>shape = [1], elems = [Some 2]\<rparr> 2 0 1 = Inr s
        \<and> sample_run (\<lambda>a ts. a) (\<lambda>k j. 0) \<lparr>shape = [1], elems = [Some 2]\<rparr> 2 0 = Inr (pred, st)
        \<and> calls st ! 1 = (cur_x s, \<lparr>shape = [1], elems = [Some (1 / 3)]\<rparr>))"
proof -
  have sp: "shape_preserving (\<lambda>a ts. a)" by (simp add: shape_preserving_def)
  have sh: "shape \<lparr>shape = [1], elems = [Some 2]\<rparr> = 1 # []" by simp
  have i: "(1::nat) < nat 2" by simp
  have up: "[0..<2::nat] = [0, 1]" by (simp add: upt_rec)
  from sample_timesteps [OF sp sh i, of "\<lambda>k j. 0" 0]
  have sched: "sample_schedule 2 = Inr (map (\<lambda>j. get_crash_schedule (1 - real j / real_of_int 2)) [0..<nat 2])"
    and ex: "\<exists>s st pred.
          sample_upto (\<lambda>a ts. a) (\<lambda>k j. 0) \<lparr>shape = [1], elems = [Some 2]\<rparr> 2 0 1 = Inr s
        \<and> sample_run (\<lambda>a ts. a) (\<lambda>k j. 0) \<lparr>shape = [1], elems = [Some 2]\<rparr> 2 0 = Inr (pred, st)
        \<and> calls st ! 1 = (cur_x s, \<lparr>shape = [1], elems = replicate 1
              (Some (get_crash_schedule (1 - real (1::nat) / real_of_int 2)))\<rparr>)"
    by blast+
  from sched have "sample_schedule 2 = Inr [1, 1 / 3]"
    by (simp add: up crash_one crash_half)
  moreover from ex have "\<exists>s st pred.
          sample_upto (\<lambda>a ts. a) (\<lambda>k j. 0) \<lparr>shape = [1], elems = [Some 2]\<rparr> 2 0 1 = Inr s
        \<and> sample_run (\<lambda>a ts. a) (\<lambda>k j. 0) \<lparr>shape = [1], elems = [Some 2]\<rparr> 2 0 = Inr (pred, st)
        \<and> calls st ! 1 = (cur_x s, \<lparr>shape = [1], elems = [Some (1 / 3)]\<rparr>)"
    by (simp add: crash_half)
  ultimately show ?thesis using sp sh i by blast
qed

lemma sample_step_eta0:
  "sample_step model rng 0 steps ts t al sg = sample_step model rng' 0 steps ts t al sg"
  by (intro ext) (simp add: sample_step_def Let_def split: sum.splits)

lemma sample_step_eta0_draws:
  "draws (loop_state (sample_step model rng 0 steps ts t al sg i st)) = draws st"
  by (simp add: sample_step_def loop_state_def Let_def split: sum.splits)

lemma for_range_draws:
  assumes "\<And>i st. draws (loop_state (body i st)) = draws st"
  shows "draws (loop_state (for_range body js st)) = draws st"
proof (induction js arbitrary: st)
  case Nil
  show ?case by (simp add: loop_state_def)
next
  case (Cons j js)
  show ?case
  proof (cases "body j st")
    case (Inl e)
    with assms [of j st] show ?thesis by simp
  next
    case (Inr st')
    with assms [of j st] have "draws st' = draws st" by (simp add: loop_state_def)
    with Cons.IH [of st'] Inr show ?thesis by simp
  qed
qed

lemma sample_upto_eta0_draws:
  "draws (loop_state (sample_upto model rng x0 steps 0 k)) = 0"
proof -
  have "draws (loop_state (for_range (sample_step model rng 0 steps ts t al sg) js (init_state x0))) = 0"
    for ts t al sg js
    using for_range_draws [of "sample_step model rng 0 steps ts t al sg" js "init_state x0"]
    by (simp add: sample_step_eta0_draws init_state_def)
  then show ?thesis
    by (simp add: sample_upto_def Let_def split: sum.splits)
       (simp add: loop_state_def init_state_def)
qed

text \<open>
  C8. With \<open>eta = 0\<close>, \<open>sample\<close> is deterministic: for every denoiser, every initial
  tensor and every \<open>steps\<close>, the outcome does not depend on the random generator,
  and the generator is never asked for a tensor during the call.
\<close>

theorem sample_deterministic:
  "sample_run model rng x0 steps 0 = sample_run model rng' x0 steps 0
   \<and> sample model rng x0 steps 0 = sample model rng' x0 steps 0
   \<and> draws (run_state (sample_run model rng x0 steps 0)) = 0"
proof (intro conjI)
  have up: "sample_upto model rng x0 steps 0 k = sample_upto model rng' x0 steps 0 k" for k
    unfolding sample_upto_def sample_step_eta0 [of model rng steps _ _ _ _ rng'] by (rule refl)
  then show run: "sample_run model rng x0 steps 0 = sample_run model rng' x0 steps 0"
    by (simp add: sample_run_def)
  then show "sample model rng x0 steps 0 = sample model rng' x0 steps 0"
    by (simp add: sample_def)
  from sample_upto_eta0_draws [of model rng x0 steps "nat steps"]
  show "draws (run_state (sample_run model rng x0 steps 0)) = 0"
    by (simp add: sample_run_def run_state_def loop_state_def split: sum.splits option.splits prod.splits)
qed

text \<open>
  C10 (amended). For every \<open>steps < 1\<close>, \<open>sample\<close> raises without having called the
  denoiser. It has no check of its arguments: for \<open>steps = 0\<close> and \<open>steps = -1\<close> the
  loop is empty and \<^verbatim>\<open>return pred\<close> raises \<open>UnboundLocalError\<close>; for \<open>steps < -1\<close>
  it is \<^verbatim>\<open>torch.linspace\<close> that raises \<open>RuntimeError\<close>; and an \<open>x\<close> without
  dimensions raises \<open>IndexError\<close> before either.
\<close>

theorem sample_rejects_nonpositive_steps:
  assumes "steps < 1"
  shows "sample model rng x0 steps eta =
           Inl (if shape x0 = [] then IndexError
                else if steps < - 1 then RuntimeError
                else UnboundLocalError)
       \<and> calls (run_state (sample_run model rng x0 steps eta)) = []"
proof (cases "shape x0")
  case Nil
  then show ?thesis
    by (simp add: sample_def sample_run_def sample_upto_def new_ones_batch_def
        run_state_def init_state_def)
next
  case (Cons b sh)
  show ?thesis
  proof (cases "steps < - 1")
    case True
    with Cons show ?thesis
      by (simp add: sample_def sample_run_def sample_upto_def new_ones_batch_def
          sample_schedule_neg run_state_def init_state_def)
  next
    case False
    with assms have n: "nat steps = 0" and m: "- 1 \<le> steps" by simp_all
    from sample_upto_0 [OF Cons m, of model rng eta] n Cons False
    show ?thesis
      by (simp add: sample_def sample_run_def run_state_def init_state_def)
  qed
qed

theorem sample_rejects_nonpositive_steps_witness:
  "(0::int) < 1
   \<and> sample (\<lambda>a ts. a) (\<lambda>k j. 0) \<lparr>shape = [1], elems = [Some 2]\<rparr> 0 0 = Inl UnboundLocalError
   \<and> calls (run_state (sample_run (\<lambda>a ts. a) (\<lambda>k j. 0) \<lparr>shape = [1], elems = [Some 2]\<rparr> 0 0)) = []"
proof -
  have h: "(0::int) < 1" by simp
  from sample_rejects_nonpositive_steps [OF h, of "\<lambda>a ts. a" "\<lambda>k j. 0" "\<lparr>shape = [1], elems = [Some 2]\<rparr>" 0]
  show ?thesis by simp
qed

text \<open>
  The claim as it was stated asks for an invalid-argument error; at \<open>steps = 0\<close> the
  error is the \<open>UnboundLocalError\<close> of the unbound variable \<^verbatim>\<open>pred\<close>.
\<close>

theorem sample_steps_zero_counterexample:
  "sample (\<lambda>a ts. a) (\<lambda>k j. 0) \<lparr>shape = [1], elems = [Some 2]\<rparr> 0 0 = Inl UnboundLocalError
   \<and> sample (\<lambda>a ts. a) (\<lambda>k j. 0) \<lparr>shape = [1], elems = [Some 2]\<rparr> 0 0 \<noteq> Inl ValueError"
proof -
  have "sample_schedule 0 = Inr []" by (simp add: sample_schedule_def linspace_def)
  then have "sample (\<lambda>a ts. a) (\<lambda>k j. 0) \<lparr>shape = [1], elems = [Some 2]\<rparr> 0 0 = Inl UnboundLocalError"
    by (simp add: sample_def sample_run_def sample_upto_def new_ones_batch_def init_state_def)
  then show ?thesis by simp
qed

lemma interpolation_elems:
  fixes a s :: real
  assumes "length xs = length vs" "None \<notin> set vs" "a\<^sup>2 + s\<^sup>2 = 1"
  shows "map2 (nan_lift (\<lambda>p q. p + q))
           (map (\<lambda>e. nan_lift (\<lambda>p q. p * q) e (Some a))
              (map2 (nan_lift (\<lambda>p q. p - q))
                 (map (\<lambda>e. nan_lift (\<lambda>p q. p * q) e (Some a)) xs)
                 (map (\<lambda>e. nan_lift (\<lambda>p q. p * q) e (Some s)) vs)))
           (map (\<lambda>e. nan_lift (\<lambda>p q. p * q) e (Some s))
              (map2 (nan_lift (\<lambda>p q. p + q))
                 (map (\<lambda>e. nan_lift (\<lambda>p q. p * q) e (Some s)) xs)
                 (map (\<lambda>e. nan_lift (\<lambda>p q. p * q) e (Some a)) vs)))
         = xs"
  using assms(1,2)
proof (induction xs vs rule: list_induct2)
  case Nil
  show ?case by simp
next
  case (Cons x xs v vs)
  from Cons.prems obtain w where v: "v = Some w" and rest: "None \<notin> set vs"
    by (cases v) auto
  have one: "nan_lift (\<lambda>p q. p + q)
          (nan_lift (\<lambda>p q. p * q)
             (nan_lift (\<lambda>p q. p - q) (nan_lift (\<lambda>p q. p * q) x (Some a))
                (nan_lift (\<lambda>p q. p * q) v (Some s))) (Some a))
          (nan_lift (\<lambda>p q. p * q)
             (nan_lift (\<lambda>p q. p + q) (nan_lift (\<lambda>p q. p * q) x (Some s))
                (nan_lift (\<lambda>p q. p * q) v (Some a))) (Some s)) = x"
  proof (cases x)
    case None
    then show ?thesis by simp
  next
    case (Some y)
    have "(y * a - w * s) * a + (y * s + w * a) * s = y * (a\<^sup>2 + s\<^sup>2)"
      by (simp add: power2_eq_square algebra_simps)
    with assms(3) have "(y * a - w * s) * a + (y * s + w * a) * s = y" by simp
    with Some v show ?thesis by simp
  qed
  from Cons.IH [OF rest] one show ?case by simp
qed

lemma interpolation_tensor:
  assumes sv: "shape v = shape x" and lv: "length (elems v) = length (elems x)"
    and nn: "no_nan v" and unit: "a\<^sup>2 + s\<^sup>2 = 1"
  shows "\<exists>pred eps. tsub (scale x (Some a)) (scale v (Some s)) = Inr pred
      \<and> tadd (scale x (Some s)) (scale v (Some a)) = Inr eps
      \<and> tadd (scale pred (Some a)) (scale eps (Some s)) = Inr x"
proof -
  let ?pred = "\<lparr>shape = shape x,
       elems = map2 (nan_lift (\<lambda>p q. p - q))
                 (map (\<lambda>e. nan_lift (\<lambda>p q. p * q) e (Some a)) (elems x))
                 (map (\<lambda>e. nan_lift (\<lambda>p q. p * q) e (Some s)) (elems v))\<rparr>"
  let ?eps = "\<lparr>shape = shape x,
       elems = map2 (nan_lift (\<lambda>p q. p + q))
                 (map (\<lambda>e. nan_lift (\<lambda>p q. p * q) e (Some s)) (elems x))
                 (map (\<lambda>e. nan_lift (\<lambda>p q. p * q) e (Some a)) (elems v))\<rparr>"
  from sv have p: "tsub (scale x (Some a)) (scale v (Some s)) = Inr ?pred"
    by (simp add: tsub_def pointwise_def)
  from sv have e: "tadd (scale x (Some s)) (scale v (Some a)) = Inr ?eps"
    by (simp add: tadd_def pointwise_def)
  from lv have len: "length (elems x) = length (elems v)" by simp
  from nn have fin: "None \<notin> set (elems v)" by (simp add: no_nan_def)
  have "tadd (scale ?pred (Some a)) (scale ?eps (Some s))
        = Inr \<lparr>shape = shape x, elems = map2 (nan_lift (\<lambda>p q. p + q))
           (map (\<lambda>e. nan_lift (\<lambda>p q. p * q) e (Some a))
              (map2 (nan_lift (\<lambda>p q. p - q))
                 (map (\<lambda>e. nan_lift (\<lambda>p q. p * q) e (Some a)) (elems x))
                 (map (\<lambda>e. nan_lift (\<lambda>p q. p * q) e (Some s)) (elems v))))
           (map (\<lambda>e. nan_lift (\<lambda>p q. p * q) e (Some s))
              (map2 (nan_lift (\<lambda>p q. p + q))
                 (map (\<lambda>e. nan_lift (\<lambda>p q. p * q) e (Some s)) (elems x))
                 (map (\<lambda>e. nan_lift (\<lambda>p q. p * q) e (Some a)) (elems v))))\<rparr>"
    by (simp only: tadd_def pointwise_def scale_def tensor.select_convs simp_thms if_True)
  also have "\<dots> = Inr \<lparr>shape = shape x, elems = elems x\<rparr>"
    by (simp only: interpolation_elems [OF len fin unit])
  also have "\<dots> = Inr x" by simp
  finally have r: "tadd (scale ?pred (Some a)) (scale ?eps (Some s)) = Inr x" .
  from p e r show ?thesis by blast
qed



lemma pointwise_elems:
  "pointwise f a b = Inr c \<Longrightarrow> elems c = map2 (nan_lift f) (elems a) (elems b)"
  by (auto simp: pointwise_def split: if_splits)

lemma map_nan_lift_None:
  "map (\<lambda>e. nan_lift f e None) xs = replicate (length xs) None"
  by (induction xs) simp_all

lemma map2_nan_lift_left:
  "length ys = n \<Longrightarrow> map2 (nan_lift f) (replicate n None) ys = replicate n None"
  by (induction ys arbitrary: n) auto

lemma map2_nan_lift_right:
  "length xs = n \<Longrightarrow> map2 (nan_lift f) xs (replicate n None) = replicate n None"
  by (induction xs arbitrary: n) auto


lemma alphas_sigmas_third: "get_alphas_sigmas (1 / 3) = (sqrt 3 / 2, 1 / 2)"
proof -
  have "(1::real) / 3 * pi / 2 = pi / 6" by simp
  then show ?thesis unfolding get_alphas_sigmas_def by (simp only: cos_30 sin_30)
qed


end
